theory Spec2Isabelle
  imports Complex_Main "HOL-Library.Sublist" "HOL-Library.Multiset"
begin

section \<open>JavaScript strings and numbers as used by the sources\<close>

text \<open>
  Strings are byte lists. \<open>toLowerCase\<close> is modelled on the ASCII letters (the
  substrings the sources look for are ASCII); \<open>str_includes\<close> is the substring test of
  \<open>String.prototype.includes\<close>; \<open>substring 0 n\<close> is \<open>take n\<close>.
\<close>

definition toLowerChar :: "char \<Rightarrow> char" where
  "toLowerChar c =
     (let n = (of_char c :: nat) in if 65 \<le> n \<and> n \<le> 90 then char_of (n + 32) else c)"

definition toLowerCase :: "string \<Rightarrow> string" where
  "toLowerCase s = map toLowerChar s"

fun starts_with :: "string \<Rightarrow> string \<Rightarrow> bool" where
  "starts_with s [] = True"
| "starts_with [] (p # ps) = False"
| "starts_with (c # cs) (p # ps) = (c = p \<and> starts_with cs ps)"

fun str_includes :: "string \<Rightarrow> string \<Rightarrow> bool" where
  "str_includes [] sub = (sub = [])"
| "str_includes (c # cs) sub = (starts_with (c # cs) sub \<or> str_includes cs sub)"

definition digit_char :: "nat \<Rightarrow> char" where
  "digit_char n = char_of (48 + n)"

function string_of_nat :: "nat \<Rightarrow> string" where
  "string_of_nat n =
     (if n < 10 then [digit_char n] else string_of_nat (n div 10) @ [digit_char (n mod 10)])"
  by pat_completeness auto
termination
  by (relation "measure id") auto

declare string_of_nat.simps [simp del]

definition string_of_int :: "int \<Rightarrow> string" where
  "string_of_int i =
     (if i < 0 then CHR ''-'' # string_of_nat (nat (- i)) else string_of_nat (nat i))"

section \<open>Error classification (utils/errors.ts)\<close>

datatype ErrorCodeType =
    RATE_LIMITED | TIMEOUT | NETWORK_ERROR | SERVICE_UNAVAILABLE
  | AUTH_ERROR | INVALID_INPUT | NOT_FOUND | QUOTA_EXCEEDED
  | INTERNAL_ERROR | PARSE_ERROR | UNKNOWN_ERROR

record StructuredError =
  code :: ErrorCodeType
  message :: string
  retryable :: bool
  statusCode :: "int option"
  cause :: "string option"

text \<open>
  A thrown or rejected JavaScript value (the classifier takes \<open>unknown\<close>), reduced to
  what \<open>classifyError\<close> reads from it. \<open>Nullish\<close> is \<open>null\<close> or \<open>undefined\<close>.
  \<open>Thrown f\<close> is any other value whose \<open>message\<close> property is absent, falsy or a
  string: \<open>f\<close> gives the message (\<open>None\<close> when it is absent or falsy), the optional
  properties \<open>response.status\<close>, \<open>status\<close>, \<open>code\<close>, \<open>name\<close>, \<open>cause\<close>, the result of
  \<open>String(error)\<close>, and whether the value is an instance of \<open>DOMException\<close>;
  \<open>err_cause\<close> holds \<open>String(err.cause)\<close> when \<open>err.cause\<close> is truthy.
  \<open>ThrownNonString f\<close> is a value whose \<open>message\<close> property is truthy but not a string
  (a number, a plain object, an array, \<open>true\<close>): \<open>f\<close> gives the same properties,
  \<open>err_message f\<close> being the text of that message value. Such a message has no
  \<open>toLowerCase\<close> method, so the call \<open>message.toLowerCase()\<close> throws a \<open>TypeError\<close>.
\<close>

record err_fields =
  is_DOMException :: bool
  err_message :: "string option"
  err_string :: string
  response_status :: "int option"
  err_status :: "int option"
  err_code :: "string option"
  err_name :: "string option"
  err_cause :: "string option"

datatype js_error = Nullish | Thrown err_fields | ThrownNonString err_fields

text \<open>\<open>a || b\<close> on optional numbers: \<open>undefined\<close> and \<open>0\<close> are falsy.\<close>

definition truthy_num :: "int option \<Rightarrow> bool" where
  "truthy_num x = (case x of None \<Rightarrow> False | Some n \<Rightarrow> n \<noteq> 0)"

definition js_or :: "int option \<Rightarrow> int option \<Rightarrow> int option" where
  "js_or a b = (if truthy_num a then a else b)"

text \<open>\<open>err.message || String(error)\<close>: a missing or empty message is falsy.\<close>

definition message_of :: "err_fields \<Rightarrow> string" where
  "message_of f =
     (case err_message f of
        None \<Rightarrow> err_string f
      | Some m \<Rightarrow> if m = [] then err_string f else m)"

definition classifyHttpError :: "int \<Rightarrow> string \<Rightarrow> StructuredError" where
  "classifyHttpError status msg =
     (if status = 400 then
        \<lparr>code = INVALID_INPUT, message = ''Bad request'', retryable = False,
         statusCode = Some status, cause = None\<rparr>
      else if status = 401 then
        \<lparr>code = AUTH_ERROR, message = ''Invalid API key'', retryable = False,
         statusCode = Some status, cause = None\<rparr>
      else if status = 403 then
        \<lparr>code = QUOTA_EXCEEDED, message = ''Access forbidden or quota exceeded'',
         retryable = False, statusCode = Some status, cause = None\<rparr>
      else if status = 404 then
        \<lparr>code = NOT_FOUND, message = ''Resource not found'', retryable = False,
         statusCode = Some status, cause = None\<rparr>
      else if status = 408 then
        \<lparr>code = TIMEOUT, message = ''Request timeout'', retryable = True,
         statusCode = Some status, cause = None\<rparr>
      else if status = 429 then
        \<lparr>code = RATE_LIMITED, message = ''Rate limit exceeded'', retryable = True,
         statusCode = Some status, cause = None\<rparr>
      else if status = 500 then
        \<lparr>code = INTERNAL_ERROR, message = ''Server error'', retryable = True,
         statusCode = Some status, cause = None\<rparr>
      else if status = 502 then
        \<lparr>code = SERVICE_UNAVAILABLE, message = ''Bad gateway'', retryable = True,
         statusCode = Some status, cause = None\<rparr>
      else if status = 503 then
        \<lparr>code = SERVICE_UNAVAILABLE, message = ''Service unavailable'', retryable = True,
         statusCode = Some status, cause = None\<rparr>
      else if status = 504 then
        \<lparr>code = TIMEOUT, message = ''Gateway timeout'', retryable = True,
         statusCode = Some status, cause = None\<rparr>
      else if status = 510 then
        \<lparr>code = SERVICE_UNAVAILABLE, message = ''Request canceled'', retryable = True,
         statusCode = Some status, cause = None\<rparr>
      else if status \<ge> 500 then
        \<lparr>code = SERVICE_UNAVAILABLE, message = ''Server error: '' @ string_of_int status,
         retryable = True, statusCode = Some status, cause = None\<rparr>
      else
        \<lparr>code = UNKNOWN_ERROR, message = ''HTTP '' @ string_of_int status @ '': '' @ msg,
         retryable = False, statusCode = Some status, cause = None\<rparr>)"

definition is_network_code :: "string option \<Rightarrow> bool" where
  "is_network_code c =
     (c = Some ''ECONNREFUSED'' \<or> c = Some ''ENOTFOUND'' \<or> c = Some ''ECONNRESET'')"

text \<open>
  The timeout test is one disjunction evaluated left to right: the three tests on
  \<open>code\<close> and \<open>name\<close> come first, and \<open>message.toLowerCase()\<close> is called only when all
  three are false.
\<close>

definition is_timeout_code :: "err_fields \<Rightarrow> bool" where
  "is_timeout_code f =
     (err_code f = Some ''ECONNABORTED'' \<or> err_code f = Some ''ETIMEDOUT'' \<or>
      err_name f = Some ''AbortError'')"

definition is_timeout_error :: "err_fields \<Rightarrow> bool" where
  "is_timeout_error f =
     (is_timeout_code f \<or>
      str_includes (toLowerCase (message_of f)) ''timeout'' \<or>
      str_includes (toLowerCase (message_of f)) ''timed out'')"

text \<open>
  The body of \<open>classifyError\<close> on a value \<open>Thrown err\<close>, whose message is a string
  (or replaced by the string \<open>String(error)\<close>): every method call on the message
  succeeds and a classification is returned.
\<close>

definition classifyFields :: "err_fields \<Rightarrow> StructuredError" where
  "classifyFields err =
     (if is_DOMException err \<and> err_name err = Some ''AbortError'' then
        \<lparr>code = TIMEOUT, message = ''Request timed out'', retryable = True,
         statusCode = None, cause = None\<rparr>
      else
        let msg = message_of err;
            status = js_or (response_status err) (err_status err)
        in
          if is_network_code (err_code err) then
            \<lparr>code = NETWORK_ERROR, message = ''Network error: '' @ the (err_code err),
             retryable = True, statusCode = None, cause = Some msg\<rparr>
          else if is_timeout_error err then
            \<lparr>code = TIMEOUT, message = ''Request timed out'', retryable = True,
             statusCode = None, cause = Some msg\<rparr>
          else if truthy_num status then
            classifyHttpError (the status) msg
          else if str_includes msg ''API_KEY'' \<or> str_includes msg ''api_key'' \<or>
                  str_includes msg ''Invalid API'' then
            \<lparr>code = AUTH_ERROR, message = ''API key missing or invalid'',
             retryable = False, statusCode = None, cause = Some msg\<rparr>
          else if str_includes msg ''JSON'' \<or> str_includes msg ''parse'' \<or>
                  str_includes msg ''Unexpected token'' then
            \<lparr>code = PARSE_ERROR, message = ''Failed to parse response'',
             retryable = False, statusCode = None, cause = Some msg\<rparr>
          else
            \<lparr>code = UNKNOWN_ERROR, message = take 500 msg, retryable = False,
             statusCode = None, cause = err_cause err\<rparr>)"

text \<open>
  The \<open>TypeError\<close> that \<open>message.toLowerCase()\<close> throws on a message that is not a
  string (V8's wording).
\<close>

definition message_TypeError :: js_error where
  "message_TypeError =
     Thrown \<lparr>is_DOMException = False,
             err_message = Some ''message.toLowerCase is not a function'',
             err_string = ''TypeError: message.toLowerCase is not a function'',
             response_status = None, err_status = None, err_code = None,
             err_name = Some ''TypeError'', err_cause = None\<rparr>"

text \<open>
  \<open>classifyError\<close>: \<open>Inr\<close> the classification it returns, \<open>Inl\<close> the exception it
  throws. On a value whose message is not a string the rules that do not call a method
  of the message still apply (the abort \<open>DOMException\<close>, the network codes, with the
  message as \<open>cause\<close>, and the timeout codes and name); past them the first call
  \<open>message.toLowerCase()\<close> throws.
\<close>

definition classifyError :: "js_error \<Rightarrow> js_error + StructuredError" where
  "classifyError error =
     (case error of
        Nullish \<Rightarrow>
          Inr \<lparr>code = UNKNOWN_ERROR, message = ''An unknown error occurred'', retryable = False,
               statusCode = None, cause = None\<rparr>
      | Thrown err \<Rightarrow> Inr (classifyFields err)
      | ThrownNonString err \<Rightarrow>
          if is_DOMException err \<and> err_name err = Some ''AbortError'' then
            Inr \<lparr>code = TIMEOUT, message = ''Request timed out'', retryable = True,
                 statusCode = None, cause = None\<rparr>
          else if is_network_code (err_code err) then
            Inr \<lparr>code = NETWORK_ERROR, message = ''Network error: '' @ the (err_code err),
                 retryable = True, statusCode = None, cause = Some (message_of err)\<rparr>
          else if is_timeout_code err then
            Inr \<lparr>code = TIMEOUT, message = ''Request timed out'', retryable = True,
                 statusCode = None, cause = Some (message_of err)\<rparr>
          else Inl message_TypeError)"



text \<open>
  A plain object \<open>{ status, message }\<close> with a string message, as the scraper passes to
  the classifier, and one whose message is a truthy value that is not a string (its
  text being \<open>m\<close>), such as \<open>{ status: 503, message: 42 }\<close>.
\<close>

definition status_fields :: "int \<Rightarrow> string \<Rightarrow> err_fields" where
  "status_fields s m =
     \<lparr>is_DOMException = False, err_message = Some m, err_string = ''[object Object]'',
      response_status = None, err_status = Some s, err_code = None, err_name = None,
      err_cause = None\<rparr>"

definition status_object :: "int \<Rightarrow> string \<Rightarrow> js_error" where
  "status_object s m = Thrown (status_fields s m)"

definition nonstring_status_object :: "int \<Rightarrow> string \<Rightarrow> js_error" where
  "nonstring_status_object s m = ThrownNonString (status_fields s m)"


lemma classifyHttpError_status: "statusCode (classifyHttpError s m) = Some s"
  by (simp add: classifyHttpError_def)



lemma classifyError_Thrown [simp]: "classifyError (Thrown f) = Inr (classifyFields f)"
  by (simp add: classifyError_def)




lemma classifyFields_reaches_http:
  assumes "\<not> (is_DOMException f \<and> err_name f = Some ''AbortError'')"
    and "\<not> is_network_code (err_code f)"
    and "\<not> is_timeout_error f"
    and "js_or (response_status f) (err_status f) = Some s"
    and "s \<noteq> 0"
  shows "classifyFields f = classifyHttpError s (message_of f)"
  using assms by (auto simp: classifyFields_def Let_def truthy_num_def)




section \<open>Token budget allocation (tools/utils.ts, tools/research.ts)\<close>

text \<open>
  \<open>Math.floor(budget / count)\<close> on integer arguments: the quotient is taken in the
  reals and floored.
\<close>

definition calculateTokenAllocation :: "int \<Rightarrow> int \<Rightarrow> int" where
  "calculateTokenAllocation cnt budget =
     (if cnt \<le> 0 then budget else \<lfloor>real_of_int budget / real_of_int cnt\<rfloor>)"

definition TOTAL_TOKEN_BUDGET :: int where
  "TOTAL_TOKEN_BUDGET = 32000"

definition research_calculateTokenAllocation :: "int \<Rightarrow> int" where
  "research_calculateTokenAllocation questionCount =
     (if questionCount \<le> 0 then TOTAL_TOKEN_BUDGET
      else \<lfloor>real_of_int TOTAL_TOKEN_BUDGET / real_of_int questionCount\<rfloor>)"

lemma calculateTokenAllocation_div:
  "0 < n \<Longrightarrow> calculateTokenAllocation n budget = budget div n"
  by (simp add: calculateTokenAllocation_def floor_divide_of_int_eq)

lemma research_allocation_eq:
  "research_calculateTokenAllocation n = calculateTokenAllocation n TOTAL_TOKEN_BUDGET"
  by (simp add: research_calculateTokenAllocation_def calculateTokenAllocation_def)

text \<open>
  C6. For every integer budget \<open>budget \<ge> 0\<close> and item count \<open>n \<ge> 0\<close> the allocator
  returns \<open>\<lfloor>budget / max 1 n\<rfloor>\<close> when \<open>n \<ge> 1\<close> and \<open>budget\<close> itself when \<open>n = 0\<close>; for
  \<open>n \<ge> 1\<close> the share satisfies \<open>per_item * n \<le> budget\<close> and \<open>per_item \<ge> 0\<close>. The
  deep-research variant is the same function at the fixed budget 32000.
\<close>

theorem calculateTokenAllocation_budget:
  assumes "0 \<le> budget" and "0 \<le> n"
  shows "(1 \<le> n \<longrightarrow>
            calculateTokenAllocation n budget = budget div max 1 n \<and>
            calculateTokenAllocation n budget * n \<le> budget \<and>
            0 \<le> calculateTokenAllocation n budget) \<and>
         (n = 0 \<longrightarrow> calculateTokenAllocation n budget = budget) \<and>
         research_calculateTokenAllocation n = calculateTokenAllocation n 32000"
proof -
  have a: "calculateTokenAllocation n budget = budget div n" if "1 \<le> n"
    using that by (simp add: calculateTokenAllocation_div)
  have b: "budget div n * n \<le> budget" if "1 \<le> n"
  proof -
    have "budget div n * n = budget - budget mod n" by (simp add: algebra_simps minus_mod_eq_mult_div)
    moreover have "0 \<le> budget mod n" using that by simp
    ultimately show ?thesis by simp
  qed
  have c: "0 \<le> budget div n" if "1 \<le> n"
    using that assms(1) by (simp add: pos_imp_zdiv_nonneg_iff)
  have d: "calculateTokenAllocation 0 budget = budget"
    by (simp add: calculateTokenAllocation_def)
  show ?thesis
    using a b c d by (auto simp: research_allocation_eq TOTAL_TOKEN_BUDGET_def max_def)
qed

theorem calculateTokenAllocation_budget_witness:
  "calculateTokenAllocation 3 32000 = 10666 \<and>
   calculateTokenAllocation 3 32000 * 3 \<le> 32000 \<and>
   0 \<le> calculateTokenAllocation 3 32000 \<and>
   research_calculateTokenAllocation 3 = 10666"
proof -
  have h1: "(0::int) \<le> 32000" and h2: "(0::int) \<le> 3" by simp_all
  from calculateTokenAllocation_budget [OF h1 h2] show ?thesis by simp
qed

section \<open>Backoff delays (utils/retry.ts, utils/errors.ts)\<close>

record RetryConfig =
  rc_maxRetries :: int
  rc_initialDelayMs :: real
  rc_maxDelayMs :: real
  rc_multiplier :: real

definition DEFAULT_RETRY_CONFIG :: RetryConfig where
  "DEFAULT_RETRY_CONFIG =
     \<lparr>rc_maxRetries = 20, rc_initialDelayMs = 500, rc_maxDelayMs = 10000, rc_multiplier = 2\<rparr>"

definition calculateDelay :: "nat \<Rightarrow> RetryConfig \<Rightarrow> real" where
  "calculateDelay attempt config =
     (let delay = rc_initialDelayMs config * rc_multiplier config ^ attempt
      in min delay (rc_maxDelayMs config))"

text \<open>
  \<open>maxRetries\<close> is a count, an integer. \<open>onRetry\<close> is an optional callback, given by
  what each call of it does: \<open>None\<close> when it returns, \<open>Some e\<close> when it throws \<open>e\<close>.
\<close>

record RetryOptions =
  maxRetries :: int
  baseDelayMs :: real
  maxDelayMs :: real
  retryableStatuses :: "int list"
  onRetry :: "(nat \<Rightarrow> StructuredError \<Rightarrow> real \<Rightarrow> js_error option) option"

definition DEFAULT_RETRY_OPTIONS :: RetryOptions where
  "DEFAULT_RETRY_OPTIONS =
     \<lparr>maxRetries = 3, baseDelayMs = 1000, maxDelayMs = 30000,
      retryableStatuses = [408, 429, 500, 502, 503, 504, 510], onRetry = None\<rparr>"

text \<open>
  \<open>calculateBackoff\<close>; the third argument is the value \<open>Math.random()\<close> returns, a real
  in \<open>[0, 1)\<close>. Numbers are modelled as reals.
\<close>

definition calculateBackoff :: "nat \<Rightarrow> RetryOptions \<Rightarrow> real \<Rightarrow> real" where
  "calculateBackoff attempt options random =
     (let exponentialDelay = baseDelayMs options * 2 ^ attempt;
          jitter = random * 0.3 * exponentialDelay
      in min (exponentialDelay + jitter) (maxDelayMs options))"

text \<open>
  The delay as the specification words it: the exponential delay clamped to
  \<open>max_delay\<close>, plus a jitter \<open>u * (jitter_ratio * clamped)\<close> for a sample \<open>u\<close> of
  \<open>[0, 1]\<close>.
\<close>

definition spec_delay :: "real \<Rightarrow> real \<Rightarrow> real \<Rightarrow> real \<Rightarrow> nat \<Rightarrow> real \<Rightarrow> real" where
  "spec_delay base_delay multiplier max_delay jitter_ratio i u =
     min max_delay (base_delay * multiplier ^ i) +
     u * (jitter_ratio * min max_delay (base_delay * multiplier ^ i))"

text \<open>
  C4, as the code has it. The multiplier is fixed at 2 and the jitter ratio at 0.3; the
  jitter is proportional to the unclamped exponential delay and the sum is clamped, so
  the delay is \<open>min max_delay (base * 2^i * (1 + 0.3 * r))\<close> for the sample \<open>r\<close>. It lies
  within \<open>[base * 2^i, base * 2^i * 1.3]\<close> clipped to \<open>max_delay\<close> and never exceeds
  \<open>max_delay\<close>. The older \<open>calculateDelay\<close> has a configurable multiplier and no jitter.
\<close>

theorem calculateBackoff_bounds:
  assumes "0 \<le> r" and "r < 1" and "0 \<le> baseDelayMs opts"
  shows "calculateBackoff i opts r =
           min (maxDelayMs opts) (baseDelayMs opts * 2 ^ i * (1 + 0.3 * r)) \<and>
         min (maxDelayMs opts) (baseDelayMs opts * 2 ^ i) \<le> calculateBackoff i opts r \<and>
         calculateBackoff i opts r \<le> min (maxDelayMs opts) (baseDelayMs opts * 2 ^ i * (1 + 0.3)) \<and>
         calculateBackoff i opts r \<le> maxDelayMs opts \<and>
         calculateDelay i cfg = min (rc_maxDelayMs cfg) (rc_initialDelayMs cfg * rc_multiplier cfg ^ i)"
proof -
  define e where "e = baseDelayMs opts * 2 ^ i"
  have e0: "0 \<le> e" using assms(3) by (simp add: e_def)
  have eq: "calculateBackoff i opts r = min (maxDelayMs opts) (e * (1 + 0.3 * r))"
    by (simp add: calculateBackoff_def Let_def e_def algebra_simps min.commute)
  have lo: "e \<le> e * (1 + 0.3 * r)"
    using e0 assms(1) by (simp add: mult_le_cancel_left1 algebra_simps)
  have hi: "e * (1 + 0.3 * r) \<le> e * (1 + 0.3)"
    using e0 assms(2) by (intro mult_left_mono) simp_all
  have d: "calculateDelay i cfg = min (rc_maxDelayMs cfg) (rc_initialDelayMs cfg * rc_multiplier cfg ^ i)"
    by (simp add: calculateDelay_def Let_def min.commute)
  show ?thesis
    unfolding eq d using lo hi by (auto simp: e_def [symmetric] min_def)
qed

theorem calculateBackoff_bounds_witness:
  "calculateBackoff 1 DEFAULT_RETRY_OPTIONS (1/2) = 2300 \<and>
   2000 \<le> calculateBackoff 1 DEFAULT_RETRY_OPTIONS (1/2) \<and>
   calculateBackoff 1 DEFAULT_RETRY_OPTIONS (1/2) \<le> 2600 \<and>
   calculateDelay 1 DEFAULT_RETRY_CONFIG = 1000"
proof -
  have h1: "(0::real) \<le> 1/2" and h2: "(1/2::real) < 1"
    and h3: "0 \<le> baseDelayMs DEFAULT_RETRY_OPTIONS"
    by (simp_all add: DEFAULT_RETRY_OPTIONS_def)
  from calculateBackoff_bounds [OF h1 h2 h3, of 1 DEFAULT_RETRY_CONFIG]
  show ?thesis by (simp add: DEFAULT_RETRY_OPTIONS_def DEFAULT_RETRY_CONFIG_def)
qed

text \<open>
  The claim's formula does not describe the code: at attempt 5 under the default policy
  the exponential delay 32000 already exceeds \<open>max_delay = 30000\<close>, and the code returns
  30000 for the samples 0, \<open>1/2\<close> and \<open>9/10\<close> alike (the jitter is cut off, not spread
  over \<open>[0, 9000]\<close>), where the formula gives 34500 and 38100 for the latter two.
\<close>

theorem calculateBackoff_formula_counterexample:
  "calculateBackoff 5 DEFAULT_RETRY_OPTIONS 0 = 30000 \<and>
   calculateBackoff 5 DEFAULT_RETRY_OPTIONS (1/2) = 30000 \<and>
   calculateBackoff 5 DEFAULT_RETRY_OPTIONS (9/10) = 30000 \<and>
   spec_delay 1000 2 30000 (3/10) 5 (1/2) = 34500 \<and>
   spec_delay 1000 2 30000 (3/10) 5 (9/10) = 38100 \<and>
   calculateBackoff 5 DEFAULT_RETRY_OPTIONS (1/2) \<noteq> spec_delay 1000 2 30000 (3/10) 5 (1/2)"
  by (simp add: calculateBackoff_def DEFAULT_RETRY_OPTIONS_def spec_delay_def Let_def)

section \<open>The retry engine (utils/errors.ts, \<open>withRetry\<close>)\<close>



















section \<open>The older retry helper (utils/retry.ts, \<open>retryWithBackoff\<close>)\<close>






















section \<open>The outcome of the two retry engines\<close>

















section \<open>The scraper client (clients/scraper.ts)\<close>

definition toUpperChar :: "char \<Rightarrow> char" where
  "toUpperChar c =
     (let n = (of_char c :: nat) in if 97 \<le> n \<and> n \<le> 122 then char_of (n - 32) else c)"

definition toUpperCase :: "string \<Rightarrow> string" where
  "toUpperCase s = map toUpperChar s"

datatype scrape_mode = basic | javascript

record ScrapeRequest =
  url :: string
  mode :: "scrape_mode option"
  timeout :: "int option"
  country :: "string option"

record ScrapeResponse =
  content :: string
  sr_statusCode :: int
  credits :: int
  headers :: "(string \<times> string) list option"
  sr_error :: "StructuredError option"

text \<open>
  What \<open>fetchWithTimeout\<close> resolves to: the status, the outcome of \<open>response.text()\<close>
  (\<open>Inl m\<close> when reading the body rejects, \<open>m\<close> being the text of the read error) and the
  headers. \<open>response.ok\<close> is the status being in 200..299.
\<close>

record http_response =
  resp_status :: int
  resp_text :: "string + string"
  resp_headers :: "(string \<times> string) list"

definition resp_ok :: "http_response \<Rightarrow> bool" where
  "resp_ok r = (200 \<le> resp_status r \<and> resp_status r \<le> 299)"

text \<open>
  The query of the request sent to the scraping API (\<open>URLSearchParams\<close>): the target
  url, the token, the timeout in milliseconds, \<open>render=true\<close> in javascript mode, and the
  geo code.
\<close>

record api_request =
  ar_url :: string
  ar_token :: string
  ar_timeout :: int
  ar_render :: bool
  ar_geoCode :: "string option"

text \<open>
  The environment of the client over a state \<open>'w\<close> of the outside world: the network
  (\<open>fetchWithTimeout\<close>, which resolves or rejects), \<open>Math.random\<close>, \<open>sleep\<close>, and
  whether \<open>new URL(url)\<close> accepts a string. \<open>fetchWithTimeout\<close> is the platform's
  \<open>fetch\<close> with an abort timer; it rejects with an \<open>Error\<close> object (a \<open>TypeError\<close>
  for a network failure, the \<open>AbortError\<close> \<open>DOMException\<close> on abort), that is, with a
  value whose message is a string, given by its properties.
\<close>

record 'w runtime =
  rt_fetch :: "api_request \<Rightarrow> int \<Rightarrow> 'w \<Rightarrow> (err_fields + http_response) \<times> 'w"
  rt_random :: "'w \<Rightarrow> real \<times> 'w"
  rt_sleep :: "int \<Rightarrow> 'w \<Rightarrow> 'w"
  rt_validURL :: "string \<Rightarrow> bool"

text \<open>The \<open>SCRAPER\<close> constants of the configuration module.\<close>

record scraper_config =
  RETRY_COUNT :: int
  RETRY_DELAYS :: "int list"
  BATCH_SIZE :: nat

definition RETRYABLE_STATUS_CODES :: "int set" where
  "RETRYABLE_STATUS_CODES = {429, 502, 503, 504, 510}"

definition PERMANENT_FAILURE_CODES :: "int set" where
  "PERMANENT_FAILURE_CODES = {400, 401, 403}"

text \<open>\<open>SCRAPER.RETRY_DELAYS[attempt] || 8000\<close>, then up to 30% jitter, floored.\<close>

definition scraper_calculateBackoff :: "'w runtime \<Rightarrow> scraper_config \<Rightarrow> nat \<Rightarrow> 'w \<Rightarrow> int \<times> 'w" where
  "scraper_calculateBackoff rt cfg attempt w =
     (let baseDelay =
            (if attempt < length (RETRY_DELAYS cfg) \<and> RETRY_DELAYS cfg ! attempt \<noteq> 0
             then RETRY_DELAYS cfg ! attempt else 8000);
          (r, w') = rt_random rt w;
          jitter = r * 0.3 * real_of_int baseDelay
      in (\<lfloor>real_of_int baseDelay + jitter\<rfloor>, w'))"

definition backoff_and_sleep :: "'w runtime \<Rightarrow> scraper_config \<Rightarrow> nat \<Rightarrow> 'w \<Rightarrow> 'w" where
  "backoff_and_sleep rt cfg attempt w =
     (let (delayMs, w') = scraper_calculateBackoff rt cfg attempt w in rt_sleep rt delayMs w')"

definition or_500 :: "int option \<Rightarrow> int" where
  "or_500 s = (if truthy_num s then the s else 500)"

text \<open>
  One iteration of the retry loop of \<open>scrape\<close>: it either returns a response or goes on
  to the next iteration (after the backoff sleep where the source sleeps) with the new
  \<open>lastError\<close>. The two values \<open>scrape\<close> hands to \<open>classifyError\<close>, the object
  \<open>{ status, message: content }\<close> of a status and the body text, and the \<open>Error\<close> the
  fetch rejected with (the only rejection that reaches the \<open>catch\<close> block), have a string
  message; on them \<open>classifyError\<close> returns \<open>classifyFields\<close>
  (lemma \<open>classifyError_Thrown\<close>).
\<close>

datatype 'w iteration = Return ScrapeResponse 'w | Continue StructuredError 'w

definition scrape_attempt ::
  "'w runtime \<Rightarrow> scraper_config \<Rightarrow> api_request \<Rightarrow> int \<Rightarrow> int \<Rightarrow> int \<Rightarrow> nat \<Rightarrow> 'w
     \<Rightarrow> 'w iteration" where
  "scrape_attempt rt cfg req tmo creds max_retries attempt w =
     (case rt_fetch rt req ((tmo + 10) * 1000) w of
        (Inr response, w1) \<Rightarrow>
          let body = (case resp_text response of
                        Inr c \<Rightarrow> c
                      | Inl m \<Rightarrow> ''Failed to read response: '' @ m);
              status = resp_status response
          in
            if resp_ok response then
              Return \<lparr>content = body, sr_statusCode = status, credits = creds,
                      headers = Some (resp_headers response), sr_error = None\<rparr> w1
            else if status = 404 then
              Return \<lparr>content = ''404 - Page not found'', sr_statusCode = 404, credits = creds,
                      headers = None, sr_error = None\<rparr> w1
            else if status \<in> PERMANENT_FAILURE_CODES then
              (let errorMsg =
                     (if status = 401 then ''No credits remaining or subscription suspended''
                      else ''Request failed with status '' @ string_of_int status)
               in Return \<lparr>content = ''Error: '' @ errorMsg, sr_statusCode = status, credits = 0,
                     headers = None,
                     sr_error = Some \<lparr>code = (if status = 401 then AUTH_ERROR else INVALID_INPUT),
                                       message = errorMsg, retryable = False,
                                       statusCode = Some status, cause = None\<rparr>\<rparr> w1)
            else if status \<in> RETRYABLE_STATUS_CODES \<and> int attempt < max_retries - 1 then
              Continue
                \<lparr>code = (if status = 429 then RATE_LIMITED else SERVICE_UNAVAILABLE),
                 message = ''Server returned '' @ string_of_int status,
                 retryable = True, statusCode = Some status, cause = None\<rparr>
                (backoff_and_sleep rt cfg attempt w1)
            else
              (let lastError = classifyFields (status_fields status body)
               in if int attempt < max_retries - 1 \<and> retryable lastError then
                    Continue lastError (backoff_and_sleep rt cfg attempt w1)
                  else
                    Return \<lparr>content = ''Error: '' @ message lastError, sr_statusCode = status,
                            credits = 0, headers = None, sr_error = Some lastError\<rparr> w1)
      | (Inl error, w1) \<Rightarrow>
          let lastError = classifyFields error
          in if \<not> retryable lastError then
               Return \<lparr>content = ''Error: '' @ message lastError,
                       sr_statusCode = or_500 (statusCode lastError), credits = 0,
                       headers = None, sr_error = Some lastError\<rparr> w1
             else if int attempt < max_retries - 1 then
               Continue lastError (backoff_and_sleep rt cfg attempt w1)
             else Continue lastError w1)"

function scrape_loop ::
  "'w runtime \<Rightarrow> scraper_config \<Rightarrow> api_request \<Rightarrow> int \<Rightarrow> int \<Rightarrow> int \<Rightarrow> nat
     \<Rightarrow> StructuredError option \<Rightarrow> 'w \<Rightarrow> ScrapeResponse \<times> 'w" where
  "scrape_loop rt cfg req tmo creds max_retries attempt lastError w =
     (if int attempt < max_retries then
        (case scrape_attempt rt cfg req tmo creds max_retries attempt w of
           Return response w1 \<Rightarrow> (response, w1)
         | Continue lastError' w1 \<Rightarrow>
             scrape_loop rt cfg req tmo creds max_retries (attempt + 1) (Some lastError') w1)
      else
        (\<lparr>content = ''Error: Failed after '' @ string_of_int max_retries @ '' attempts. '' @
                    (case lastError of
                       None \<Rightarrow> ''Unknown error''
                     | Some e \<Rightarrow> if message e = [] then ''Unknown error'' else message e),
           sr_statusCode = (case lastError of None \<Rightarrow> 500 | Some e \<Rightarrow> or_500 (statusCode e)),
           credits = 0, headers = None,
           sr_error = Some (case lastError of
                              None \<Rightarrow> \<lparr>code = UNKNOWN_ERROR, message = ''All retries exhausted'',
                                        retryable = False, statusCode = None, cause = None\<rparr>
                            | Some e \<Rightarrow> e)\<rparr>, w))"
  by pat_completeness auto
termination
  by (relation "measure (\<lambda>(rt, cfg, req, tmo, creds, max_retries, attempt, lastError, w).
                            nat (max_retries - int attempt))")
     auto

declare scrape_loop.simps [simp del]

definition scrape ::
  "'w runtime \<Rightarrow> scraper_config \<Rightarrow> string \<Rightarrow> ScrapeRequest \<Rightarrow> int \<Rightarrow> 'w \<Rightarrow> ScrapeResponse \<times> 'w" where
  "scrape rt cfg apiKey request max_retries w =
     (let md = (case mode request of None \<Rightarrow> basic | Some m \<Rightarrow> m);
          tmo = (case timeout request of None \<Rightarrow> 30 | Some t \<Rightarrow> t);
          creds = (if md = javascript then 5 else 1)
      in
        if \<not> rt_validURL rt (url request) then
          (\<lparr>content = ''Invalid URL: '' @ url request, sr_statusCode = 400, credits = 0,
             headers = None,
             sr_error = Some \<lparr>code = INVALID_INPUT, message = ''Invalid URL: '' @ url request,
                               retryable = False, statusCode = None, cause = None\<rparr>\<rparr>, w)
        else
          scrape_loop rt cfg
            \<lparr>ar_url = url request, ar_token = apiKey, ar_timeout = tmo * 1000,
             ar_render = (md = javascript),
             ar_geoCode = (case country request of
                             None \<Rightarrow> None
                           | Some c \<Rightarrow> if c = [] then None else Some (toUpperCase c))\<rparr>
            tmo creds max_retries 0 None w)"


record fallback_attempt =
  fa_mode :: scrape_mode
  fa_country :: "string option"
  fa_description :: string

definition fallback_attempts :: "fallback_attempt list" where
  "fallback_attempts =
     [\<lparr>fa_mode = basic, fa_country = None, fa_description = ''basic mode''\<rparr>,
      \<lparr>fa_mode = javascript, fa_country = None, fa_description = ''javascript rendering''\<rparr>,
      \<lparr>fa_mode = javascript, fa_country = Some ''us'',
       fa_description = ''javascript + US geo-targeting''\<rparr>]"

fun join :: "string \<Rightarrow> string list \<Rightarrow> string" where
  "join sep [] = []"
| "join sep [x] = x"
| "join sep (x # y # ys) = x @ sep @ join sep (y # ys)"

definition fallback_request :: "string \<Rightarrow> int option \<Rightarrow> fallback_attempt \<Rightarrow> ScrapeRequest" where
  "fallback_request u tmo attempt =
     \<lparr>url = u, mode = Some (fa_mode attempt), timeout = tmo, country = fa_country attempt\<rparr>"

fun fallback_loop ::
  "'w runtime \<Rightarrow> scraper_config \<Rightarrow> string \<Rightarrow> string \<Rightarrow> int option \<Rightarrow> fallback_attempt list
     \<Rightarrow> string list \<Rightarrow> ScrapeResponse option \<Rightarrow> 'w \<Rightarrow> ScrapeResponse \<times> 'w" where
  "fallback_loop rt cfg apiKey u tmo [] attemptResults lastResult w =
     (let errorMessage =
            ''Failed after '' @ string_of_nat (length fallback_attempts) @
            '' fallback modes: '' @ join ''; '' attemptResults
      in (\<lparr>content = ''Error: '' @ errorMessage,
            sr_statusCode =
              (case lastResult of
                 None \<Rightarrow> 500
               | Some r \<Rightarrow> if sr_statusCode r \<noteq> 0 then sr_statusCode r else 500),
            credits = 0, headers = None,
            sr_error = Some \<lparr>code = SERVICE_UNAVAILABLE, message = errorMessage,
                              retryable = False, statusCode = None, cause = None\<rparr>\<rparr>, w))"
| "fallback_loop rt cfg apiKey u tmo (attempt # rest) attemptResults lastResult w =
     (case scrape rt cfg apiKey (fallback_request u tmo attempt) (RETRY_COUNT cfg) w of
        (result, w1) \<Rightarrow>
          if 200 \<le> sr_statusCode result \<and> sr_statusCode result < 300 \<and> sr_error result = None
          then (result, w1)
          else if sr_statusCode result = 404 then (result, w1)
          else if (case sr_error result of Some e \<Rightarrow> \<not> retryable e | None \<Rightarrow> False)
          then (result, w1)
          else
            fallback_loop rt cfg apiKey u tmo rest
              (attemptResults @
               [fa_description attempt @ '': '' @
                (case sr_error result of
                   Some e \<Rightarrow> if message e \<noteq> [] then message e
                             else string_of_int (sr_statusCode result)
                 | None \<Rightarrow> string_of_int (sr_statusCode result))])
              (Some result) w1)"

declare fallback_loop.simps [simp del]

definition scrapeWithFallback ::
  "'w runtime \<Rightarrow> scraper_config \<Rightarrow> string \<Rightarrow> string \<Rightarrow> int option \<Rightarrow> 'w \<Rightarrow> ScrapeResponse \<times> 'w" where
  "scrapeWithFallback rt cfg apiKey u tmo w =
     fallback_loop rt cfg apiKey u tmo fallback_attempts [] None w"

text \<open>The three ways a mode's result ends the ladder, and a failure that may be retried.\<close>

definition is_2xx :: "int \<Rightarrow> bool" where
  "is_2xx s = (200 \<le> s \<and> s < 300)"

definition ends_ladder :: "ScrapeResponse \<Rightarrow> bool" where
  "ends_ladder r =
     ((is_2xx (sr_statusCode r) \<and> sr_error r = None) \<or> sr_statusCode r = 404 \<or>
      (case sr_error r of Some e \<Rightarrow> \<not> retryable e | None \<Rightarrow> False))"

definition nonpermanent_failure :: "ScrapeResponse \<Rightarrow> bool" where
  "nonpermanent_failure r =
     ((case sr_error r of Some e \<Rightarrow> retryable e | None \<Rightarrow> False) \<and>
      \<not> is_2xx (sr_statusCode r) \<and> sr_statusCode r \<noteq> 404 \<and>
      sr_statusCode r \<notin> PERMANENT_FAILURE_CODES)"

definition retry_status :: "int \<Rightarrow> bool" where
  "retry_status s = (\<not> is_2xx s \<and> s \<noteq> 404 \<and> s \<notin> PERMANENT_FAILURE_CODES)"

definition scrape_result_inv :: "ScrapeResponse \<Rightarrow> bool" where
  "scrape_result_inv r =
     (case sr_error r of
        None \<Rightarrow> is_2xx (sr_statusCode r) \<or> sr_statusCode r = 404
      | Some e \<Rightarrow> retryable e \<longrightarrow> retry_status (sr_statusCode r))"

definition lastError_inv :: "StructuredError option \<Rightarrow> bool" where
  "lastError_inv le =
     (case le of None \<Rightarrow> True | Some e \<Rightarrow> retryable e \<longrightarrow> retry_status (or_500 (statusCode e)))"

lemma classifyHttpError_retryable_iff:
  "retryable (classifyHttpError s m) = (s = 408 \<or> s = 429 \<or> 500 \<le> s)"
  by (simp add: classifyHttpError_def)

lemma classifyHttpError_retry_status:
  "retryable (classifyHttpError s m) \<Longrightarrow> retry_status s"
  unfolding classifyHttpError_retryable_iff
  by (auto simp: retry_status_def is_2xx_def PERMANENT_FAILURE_CODES_def)

lemma classifyFields_status_cases:
  "statusCode (classifyFields f) = None \<or>
   (\<exists>s m. s \<noteq> 0 \<and> classifyFields f = classifyHttpError s m)"
proof (cases "js_or (response_status f) (err_status f)")
  case None
  then show ?thesis
    by (simp add: classifyFields_def Let_def truthy_num_def)
next
  case (Some s)
  show ?thesis
  proof (cases "s = 0")
    case True
    with Some show ?thesis
      by (simp add: classifyFields_def Let_def truthy_num_def)
  next
    case False
    have "classifyHttpError s (message_of f) = classifyHttpError s (message_of f)" ..
    with False have ex: "\<exists>s' m. s' \<noteq> 0 \<and> classifyHttpError s (message_of f) = classifyHttpError s' m"
      by blast
    show ?thesis
    proof (cases "(is_DOMException f \<and> err_name f = Some ''AbortError'') \<or>
                  is_network_code (err_code f) \<or> is_timeout_error f")
      case True
      then show ?thesis
        by (auto simp: classifyFields_def Let_def)
    next
      case no: False
      with Some False have "classifyFields f = classifyHttpError s (message_of f)"
        by (simp add: classifyFields_reaches_http)
      with ex show ?thesis by simp
    qed
  qed
qed

lemma classifyFields_retry_status:
  assumes r: "retryable (classifyFields f)"
  shows "retry_status (or_500 (statusCode (classifyFields f)))"
  using classifyFields_status_cases [of f]
proof
  assume "statusCode (classifyFields f) = None"
  then show ?thesis
    by (simp add: or_500_def truthy_num_def retry_status_def is_2xx_def
        PERMANENT_FAILURE_CODES_def)
next
  assume "\<exists>s m. s \<noteq> 0 \<and> classifyFields f = classifyHttpError s m"
  then obtain s m where s: "s \<noteq> 0" "classifyFields f = classifyHttpError s m" by blast
  with r have "retry_status s" by (simp add: classifyHttpError_retry_status)
  with s show ?thesis
    by (simp add: classifyHttpError_status or_500_def truthy_num_def)
qed

lemma retryable_code_status: "s \<in> RETRYABLE_STATUS_CODES \<Longrightarrow> retry_status s \<and> s \<noteq> 0"
  by (auto simp: retry_status_def RETRYABLE_STATUS_CODES_def PERMANENT_FAILURE_CODES_def
      is_2xx_def)

lemma failed_status: 
  "\<not> resp_ok response \<Longrightarrow> resp_status response \<noteq> 404 \<Longrightarrow>
   resp_status response \<notin> PERMANENT_FAILURE_CODES \<Longrightarrow> retry_status (resp_status response)"
  by (auto simp: retry_status_def resp_ok_def is_2xx_def)

lemma retryable_code_inv:
  "s \<in> RETRYABLE_STATUS_CODES \<Longrightarrow> retry_status (or_500 (Some s))"
  using retryable_code_status [of s] by (simp add: or_500_def truthy_num_def)

lemma scrape_attempt_shape:
  "(case scrape_attempt rt cfg req tmo creds max_retries attempt w of
      Return r w1 \<Rightarrow> scrape_result_inv r
    | Continue e w1 \<Rightarrow> lastError_inv (Some e))"
proof (cases "rt_fetch rt req ((tmo + 10) * 1000) w")
  case (Pair out w')
  show ?thesis
  proof (cases out)
    case (Inl error)
    with Pair show ?thesis
      by (simp add: scrape_attempt_def Let_def scrape_result_inv_def lastError_inv_def
          classifyFields_retry_status)
  next
    case (Inr response)
    show ?thesis
    proof (cases "resp_ok response")
      case True
      with Pair Inr show ?thesis
        by (simp add: scrape_attempt_def Let_def scrape_result_inv_def resp_ok_def is_2xx_def)
    next
      case False
      with Pair Inr show ?thesis
        by (simp add: scrape_attempt_def Let_def scrape_result_inv_def lastError_inv_def
            classifyFields_retry_status failed_status retryable_code_inv)
    qed
  qed
qed

lemma scrape_attempt_Return:
  assumes "scrape_attempt rt cfg req tmo creds max_retries attempt w = Return r w1"
  shows "scrape_result_inv r"
  using scrape_attempt_shape [of rt cfg req tmo creds max_retries attempt w] assms by simp

lemma scrape_attempt_Continue:
  assumes "scrape_attempt rt cfg req tmo creds max_retries attempt w = Continue e w1"
  shows "lastError_inv (Some e)"
  using scrape_attempt_shape [of rt cfg req tmo creds max_retries attempt w] assms by simp

lemma scrape_loop_inv:
  "lastError_inv lastError \<Longrightarrow>
   scrape_result_inv (fst (scrape_loop rt cfg req tmo creds max_retries attempt lastError w))"
proof (induction rt cfg req tmo creds max_retries attempt lastError w rule: scrape_loop.induct)
  case (1 rt cfg req tmo creds max_retries attempt lastError w)
  show ?case
  proof (cases "int attempt < max_retries")
    case False
    with 1(2) show ?thesis
      by (subst scrape_loop.simps)
        (auto simp: scrape_result_inv_def lastError_inv_def split: option.splits)
  next
    case True
    show ?thesis
    proof (cases "scrape_attempt rt cfg req tmo creds max_retries attempt w")
      case (Return r w1)
      with True scrape_attempt_Return [OF Return] show ?thesis
        by (subst scrape_loop.simps) simp
    next
      case (Continue e w1)
      from 1(1) [OF True Continue scrape_attempt_Continue [OF Continue]] True Continue
      show ?thesis by (subst scrape_loop.simps) simp
    qed
  qed
qed

lemma scrape_inv: "scrape_result_inv (fst (scrape rt cfg apiKey request max_retries w))"
  by (simp add: scrape_def Let_def scrape_loop_inv lastError_inv_def)
    (simp add: scrape_result_inv_def)


lemma scrape_ends_ladder:
  assumes "scrape rt cfg apiKey request max_retries w = (r, w')"
  shows "(is_2xx (sr_statusCode r) \<or> sr_statusCode r = 404 \<or>
          sr_statusCode r \<in> PERMANENT_FAILURE_CODES \<longrightarrow> ends_ladder r) \<and>
         (\<not> ends_ladder r \<longrightarrow> nonpermanent_failure r)"
proof -
  have inv: "scrape_result_inv r"
    using scrape_inv [of rt cfg apiKey request max_retries w] assms by simp
  show ?thesis
  proof (cases "sr_error r")
    case None
    with inv show ?thesis
      by (auto simp: scrape_result_inv_def ends_ladder_def)
  next
    case (Some e)
    with inv show ?thesis
      by (cases "retryable e")
        (auto simp: scrape_result_inv_def ends_ladder_def nonpermanent_failure_def
          retry_status_def)
  qed
qed

lemma fallback_loop_step:
  assumes "scrape rt cfg apiKey (fallback_request u tmo a) (RETRY_COUNT cfg) w = (r, w1)"
  shows "fallback_loop rt cfg apiKey u tmo (a # rest) results lastResult w =
           (if ends_ladder r then (r, w1)
            else fallback_loop rt cfg apiKey u tmo rest
                   (results @
                    [fa_description a @ '': '' @
                     (case sr_error r of
                        Some e \<Rightarrow> if message e \<noteq> [] then message e
                                  else string_of_int (sr_statusCode r)
                      | None \<Rightarrow> string_of_int (sr_statusCode r))])
                   (Some r) w1)"
  using assms by (auto simp: fallback_loop.simps ends_ladder_def is_2xx_def)

lemma fallback_loop_exhausted:
  "snd (fallback_loop rt cfg apiKey u tmo [] results lastResult w) = w \<and>
   map_option code (sr_error (fst (fallback_loop rt cfg apiKey u tmo [] results lastResult w))) =
     Some SERVICE_UNAVAILABLE \<and>
   map_option retryable (sr_error (fst (fallback_loop rt cfg apiKey u tmo [] results lastResult w))) =
     Some False"
  by (simp add: fallback_loop.simps Let_def)

text \<open>
  C7. Let \<open>r1\<close>, \<open>r2\<close>, \<open>r3\<close> be what \<open>scrape\<close> returns for the modes basic,
  javascript and javascript with geo code \<open>us\<close>, run in that order, each from the state
  the previous one left. Then scrape-with-fallback returns the first of them that ends
  the ladder, having run no later mode (the final state is the state after that mode);
  when none does, it returns a ServiceUnavailable summary after the third. A result
  ends the ladder when it is a 2xx response, a 404, or carries a non-retryable error;
  every result of \<open>scrape\<close> with status 2xx, 404, 400, 401 or 403 does, and a result that
  does not end the ladder is a retryable (non-permanent) failure whose status is none of
  these.
\<close>

theorem scrapeWithFallback_ladder:
  assumes s1: "scrape rt cfg apiKey
                 \<lparr>url = u, mode = Some basic, timeout = tmo, country = None\<rparr>
                 (RETRY_COUNT cfg) w = (r1, w1)"
    and s2: "scrape rt cfg apiKey
                 \<lparr>url = u, mode = Some javascript, timeout = tmo, country = None\<rparr>
                 (RETRY_COUNT cfg) w1 = (r2, w2)"
    and s3: "scrape rt cfg apiKey
                 \<lparr>url = u, mode = Some javascript, timeout = tmo, country = Some ''us''\<rparr>
                 (RETRY_COUNT cfg) w2 = (r3, w3)"
  shows "(ends_ladder r1 \<longrightarrow> scrapeWithFallback rt cfg apiKey u tmo w = (r1, w1)) \<and>
         (\<not> ends_ladder r1 \<and> ends_ladder r2 \<longrightarrow>
            scrapeWithFallback rt cfg apiKey u tmo w = (r2, w2)) \<and>
         (\<not> ends_ladder r1 \<and> \<not> ends_ladder r2 \<and> ends_ladder r3 \<longrightarrow>
            scrapeWithFallback rt cfg apiKey u tmo w = (r3, w3)) \<and>
         (\<not> ends_ladder r1 \<and> \<not> ends_ladder r2 \<and> \<not> ends_ladder r3 \<longrightarrow>
            snd (scrapeWithFallback rt cfg apiKey u tmo w) = w3 \<and>
            map_option code (sr_error (fst (scrapeWithFallback rt cfg apiKey u tmo w))) =
              Some SERVICE_UNAVAILABLE) \<and>
         (\<forall>r \<in> {r1, r2, r3}.
            (is_2xx (sr_statusCode r) \<or> sr_statusCode r = 404 \<or>
             sr_statusCode r \<in> PERMANENT_FAILURE_CODES \<longrightarrow> ends_ladder r) \<and>
            (\<not> ends_ladder r \<longrightarrow> nonpermanent_failure r))"
proof -
  define a1 where
    "a1 = \<lparr>fa_mode = basic, fa_country = None, fa_description = ''basic mode''\<rparr>"
  define a2 where
    "a2 = \<lparr>fa_mode = javascript, fa_country = None, fa_description = ''javascript rendering''\<rparr>"
  define a3 where
    "a3 = \<lparr>fa_mode = javascript, fa_country = Some ''us'',
            fa_description = ''javascript + US geo-targeting''\<rparr>"
  have q1: "scrape rt cfg apiKey (fallback_request u tmo a1) (RETRY_COUNT cfg) w = (r1, w1)"
    using s1 by (simp add: fallback_request_def a1_def)
  have q2: "scrape rt cfg apiKey (fallback_request u tmo a2) (RETRY_COUNT cfg) w1 = (r2, w2)"
    using s2 by (simp add: fallback_request_def a2_def)
  have q3: "scrape rt cfg apiKey (fallback_request u tmo a3) (RETRY_COUNT cfg) w2 = (r3, w3)"
    using s3 by (simp add: fallback_request_def a3_def)
  have ladder: "scrapeWithFallback rt cfg apiKey u tmo w =
      fallback_loop rt cfg apiKey u tmo [a1, a2, a3] [] None w"
    by (simp add: scrapeWithFallback_def fallback_attempts_def a1_def a2_def a3_def)
  have a: "ends_ladder r1 \<longrightarrow> scrapeWithFallback rt cfg apiKey u tmo w = (r1, w1)"
    unfolding ladder by (simp add: fallback_loop_step [OF q1])
  have b: "\<not> ends_ladder r1 \<and> ends_ladder r2 \<longrightarrow>
            scrapeWithFallback rt cfg apiKey u tmo w = (r2, w2)"
    unfolding ladder by (simp add: fallback_loop_step [OF q1] fallback_loop_step [OF q2])
  have c: "\<not> ends_ladder r1 \<and> \<not> ends_ladder r2 \<and> ends_ladder r3 \<longrightarrow>
            scrapeWithFallback rt cfg apiKey u tmo w = (r3, w3)"
    unfolding ladder
    by (simp add: fallback_loop_step [OF q1] fallback_loop_step [OF q2] fallback_loop_step [OF q3])
  have d: "\<not> ends_ladder r1 \<and> \<not> ends_ladder r2 \<and> \<not> ends_ladder r3 \<longrightarrow>
            snd (scrapeWithFallback rt cfg apiKey u tmo w) = w3 \<and>
            map_option code (sr_error (fst (scrapeWithFallback rt cfg apiKey u tmo w))) =
              Some SERVICE_UNAVAILABLE"
    unfolding ladder
    using fallback_loop_exhausted [of rt cfg apiKey u tmo]
    by (simp add: fallback_loop_step [OF q1] fallback_loop_step [OF q2] fallback_loop_step [OF q3])
  have e: "\<forall>r \<in> {r1, r2, r3}.
            (is_2xx (sr_statusCode r) \<or> sr_statusCode r = 404 \<or>
             sr_statusCode r \<in> PERMANENT_FAILURE_CODES \<longrightarrow> ends_ladder r) \<and>
            (\<not> ends_ladder r \<longrightarrow> nonpermanent_failure r)"
    using scrape_ends_ladder [OF s1] scrape_ends_ladder [OF s2] scrape_ends_ladder [OF s3]
    by blast
  from a b c d e show ?thesis by blast
qed

text \<open>
  C10. When \<open>new URL(url)\<close> rejects the request's url, \<open>scrape\<close> returns the response
  with content \<open>Invalid URL: <url>\<close>, status 400, 0 credits and a non-retryable
  InvalidInput error, and the state of the world is unchanged: nothing was fetched,
  no random number drawn, no sleep made, whatever the retry count.
\<close>

theorem scrape_invalid_url:
  assumes "\<not> rt_validURL rt (url request)"
  shows "scrape rt cfg apiKey request max_retries w =
           (\<lparr>content = ''Invalid URL: '' @ url request, sr_statusCode = 400, credits = 0,
              headers = None,
              sr_error = Some \<lparr>code = INVALID_INPUT, message = ''Invalid URL: '' @ url request,
                                retryable = False, statusCode = None, cause = None\<rparr>\<rparr>, w)"
  using assms by (simp add: scrape_def Let_def)


text \<open>
  An example environment: the world is the log of the requests sent; the provider
  answers 200 to a rendered (javascript) request and 503 otherwise.
\<close>

definition demo_fetch ::
  "api_request \<Rightarrow> int \<Rightarrow> api_request list \<Rightarrow> (err_fields + http_response) \<times> api_request list" where
  "demo_fetch req t w =
     (Inr \<lparr>resp_status = (if ar_render req then 200 else 503),
           resp_text = Inr (if ar_render req then ''<html>'' else ''down''),
           resp_headers = []\<rparr>, w @ [req])"

definition demo_rt :: "api_request list runtime" where
  "demo_rt =
     \<lparr>rt_fetch = demo_fetch, rt_random = (\<lambda>w. (0, w)), rt_sleep = (\<lambda>d w. w),
      rt_validURL = (\<lambda>u. starts_with u ''http'')\<rparr>"

definition demo_cfg :: scraper_config where
  "demo_cfg = \<lparr>RETRY_COUNT = 2, RETRY_DELAYS = [1000, 2000], BATCH_SIZE = 30\<rparr>"

definition demo_req :: "bool \<Rightarrow> string option \<Rightarrow> api_request" where
  "demo_req render geo =
     \<lparr>ar_url = ''http://a.example'', ar_token = ''key'', ar_timeout = 30000,
      ar_render = render, ar_geoCode = geo\<rparr>"

definition demo_failure :: ScrapeResponse where
  "demo_failure =
     \<lparr>content = ''Error: Service unavailable'', sr_statusCode = 503, credits = 0,
      headers = None,
      sr_error = Some \<lparr>code = SERVICE_UNAVAILABLE, message = ''Service unavailable'',
                        retryable = True, statusCode = Some 503, cause = None\<rparr>\<rparr>"

definition demo_page :: ScrapeResponse where
  "demo_page =
     \<lparr>content = ''<html>'', sr_statusCode = 200, credits = 5, headers = Some [],
      sr_error = None\<rparr>"

theorem scrapeWithFallback_ladder_witness:
  "scrapeWithFallback demo_rt demo_cfg ''key'' ''http://a.example'' None [] =
     (demo_page, [demo_req False None, demo_req False None, demo_req True None]) \<and>
   \<not> ends_ladder demo_failure \<and> nonpermanent_failure demo_failure \<and>
   is_2xx (sr_statusCode demo_page) \<and> ends_ladder demo_page"
proof -
  let ?w1 = "[demo_req False None, demo_req False None]"
  let ?w2 = "[demo_req False None, demo_req False None, demo_req True None]"
  let ?q3 = "scrape demo_rt demo_cfg ''key''
               \<lparr>url = ''http://a.example'', mode = Some javascript, timeout = None,
                country = Some ''us''\<rparr> (RETRY_COUNT demo_cfg) ?w2"
  have s1: "scrape demo_rt demo_cfg ''key''
              \<lparr>url = ''http://a.example'', mode = Some basic, timeout = None, country = None\<rparr>
              (RETRY_COUNT demo_cfg) [] = (demo_failure, ?w1)"
    by code_simp
  have s2: "scrape demo_rt demo_cfg ''key''
              \<lparr>url = ''http://a.example'', mode = Some javascript, timeout = None,
               country = None\<rparr>
              (RETRY_COUNT demo_cfg) ?w1 = (demo_page, ?w2)"
    by code_simp
  have s3: "?q3 = (fst ?q3, snd ?q3)" by simp
  have n1: "\<not> ends_ladder demo_failure" by code_simp
  have e2: "ends_ladder demo_page" by code_simp
  have x: "is_2xx (sr_statusCode demo_page)" by code_simp
  from scrapeWithFallback_ladder [OF s1 s2 s3] n1 e2 x show ?thesis by simp
qed

theorem scrape_invalid_url_witness:
  "\<not> rt_validURL demo_rt ''not a url'' \<and>
   scrape demo_rt demo_cfg ''key''
     \<lparr>url = ''not a url'', mode = None, timeout = None, country = None\<rparr> 5 [] =
     (\<lparr>content = ''Invalid URL: not a url'', sr_statusCode = 400, credits = 0, headers = None,
       sr_error = Some \<lparr>code = INVALID_INPUT, message = ''Invalid URL: not a url'',
                         retryable = False, statusCode = None, cause = None\<rparr>\<rparr>, [])"
proof -
  have h: "\<not> rt_validURL demo_rt
             (url \<lparr>url = ''not a url'', mode = None, timeout = None, country = None\<rparr>)"
    by (simp add: demo_rt_def)
  from scrape_invalid_url [OF h, of demo_cfg "''key''" 5 "[]"] h show ?thesis by simp
qed

lemma scrape_permanent_response:
  assumes "rt_validURL rt (url request)" and "0 < max_retries"
    and "rt_fetch rt
           \<lparr>ar_url = url request, ar_token = apiKey,
            ar_timeout = (case timeout request of None \<Rightarrow> 30 | Some t \<Rightarrow> t) * 1000,
            ar_render = ((case mode request of None \<Rightarrow> basic | Some m \<Rightarrow> m) = javascript),
            ar_geoCode = (case country request of
                            None \<Rightarrow> None
                          | Some c \<Rightarrow> if c = [] then None else Some (toUpperCase c))\<rparr>
           (((case timeout request of None \<Rightarrow> 30 | Some t \<Rightarrow> t) + 10) * 1000) w =
         (Inr response, w1)"
    and "resp_status response \<in> PERMANENT_FAILURE_CODES"
  shows "snd (scrape rt cfg apiKey request max_retries w) = w1 \<and>
         sr_statusCode (fst (scrape rt cfg apiKey request max_retries w)) = resp_status response \<and>
         map_option retryable (sr_error (fst (scrape rt cfg apiKey request max_retries w))) =
           Some False \<and>
         map_option code (sr_error (fst (scrape rt cfg apiKey request max_retries w))) =
           Some (if resp_status response = 401 then AUTH_ERROR else INVALID_INPUT)"
proof -
  have nok: "\<not> resp_ok response" "resp_status response \<noteq> 404"
    using assms(4) by (auto simp: PERMANENT_FAILURE_CODES_def resp_ok_def)
  show ?thesis
    using assms nok
    by (simp add: scrape_def Let_def scrape_loop.simps [of _ _ _ _ _ _ 0] scrape_attempt_def)
qed

text \<open>
  Scenario: the provider answers the first (basic mode) request with 400, 401 or 403.
  Then scrape-with-fallback returns that failure after this one request: the state is
  the one the single fetch left, and the error is Auth for 401.
\<close>

lemma scrapeWithFallback_permanent_response:
  assumes "rt_validURL rt u" and "0 < RETRY_COUNT cfg"
    and "rt_fetch rt
           \<lparr>ar_url = u, ar_token = apiKey,
            ar_timeout = (case tmo of None \<Rightarrow> 30 | Some t \<Rightarrow> t) * 1000,
            ar_render = False, ar_geoCode = None\<rparr>
           (((case tmo of None \<Rightarrow> 30 | Some t \<Rightarrow> t) + 10) * 1000) w =
         (Inr response, w1)"
    and "resp_status response \<in> PERMANENT_FAILURE_CODES"
  shows "snd (scrapeWithFallback rt cfg apiKey u tmo w) = w1 \<and>
         sr_statusCode (fst (scrapeWithFallback rt cfg apiKey u tmo w)) = resp_status response \<and>
         map_option code (sr_error (fst (scrapeWithFallback rt cfg apiKey u tmo w))) =
           Some (if resp_status response = 401 then AUTH_ERROR else INVALID_INPUT)"
proof -
  let ?a = "\<lparr>fa_mode = basic, fa_country = None, fa_description = ''basic mode''\<rparr>"
  let ?q = "scrape rt cfg apiKey (fallback_request u tmo ?a) (RETRY_COUNT cfg) w"
  have p: "snd ?q = w1 \<and> sr_statusCode (fst ?q) = resp_status response \<and>
           map_option retryable (sr_error (fst ?q)) = Some False \<and>
           map_option code (sr_error (fst ?q)) =
             Some (if resp_status response = 401 then AUTH_ERROR else INVALID_INPUT)"
    by (rule scrape_permanent_response) (use assms in \<open>simp_all add: fallback_request_def\<close>)
  then have e: "ends_ladder (fst ?q)"
    by (cases "sr_error (fst ?q)") (auto simp: ends_ladder_def)
  have "scrapeWithFallback rt cfg apiKey u tmo w = (fst ?q, snd ?q)"
    unfolding scrapeWithFallback_def fallback_attempts_def
    using fallback_loop_step [of rt cfg apiKey u tmo ?a w "fst ?q" "snd ?q"] e by simp
  with p show ?thesis by simp
qed

section \<open>The tool registry and dispatcher (tools/registry.ts, index.ts)\<close>

datatype capability = search | reddit | deepResearch | scraping | llmExtraction

type_synonym Capabilities = "capability \<Rightarrow> bool"

datatype content_item = TextContent string

record CallToolResult =
  ctr_content :: "content_item list"
  isError :: "bool option"

text \<open>
  What \<open>schema.parse\<close> throws: a \<open>ZodError\<close> with its issues (path and message), or
  any other value.
\<close>

record zod_issue =
  zi_path :: "string list"
  zi_message :: string

datatype parse_failure = ZodError "zod_issue list" | OtherParseError js_error

text \<open>
  A registered tool over raw arguments \<open>'a\<close>, validated parameters \<open>'p\<close> and the state
  \<open>'w\<close> of the outside world: only the handler acts on the world (provider calls);
  it resolves to a string or rejects.
\<close>

record ('a, 'p, 'w) ToolRegistration =
  tr_name :: string
  tr_capability :: "capability option"
  tr_schema :: "'a \<Rightarrow> parse_failure + 'p"
  tr_handler :: "'p \<Rightarrow> 'w \<Rightarrow> (js_error + string) \<times> 'w"
  tr_postValidate :: "('p \<Rightarrow> string option) option"
  tr_transformResponse :: "(string \<Rightarrow> string \<times> bool option) option"

type_synonym ('a, 'p, 'w) ToolRegistry = "(string \<times> ('a, 'p, 'w) ToolRegistration) list"

text \<open>The UTF-8 bytes of the cross mark U+274C used in the error headings.\<close>

definition cross_mark :: string where
  "cross_mark = [char_of (226 :: nat), char_of (157 :: nat), char_of (140 :: nat)]"

definition newline :: string where
  "newline = [char_of (10 :: nat)]"

text \<open>
  The imported schemas and handlers are given per tool name; the registry itself is as
  written in the source.
\<close>

definition toolRegistry ::
  "(string \<Rightarrow> 'a \<Rightarrow> parse_failure + 'p) \<Rightarrow> (string \<Rightarrow> 'p \<Rightarrow> 'w \<Rightarrow> (js_error + string) \<times> 'w)
     \<Rightarrow> ('a, 'p, 'w) ToolRegistry" where
  "toolRegistry schemas handlers =
     [(''search_reddit'',
       \<lparr>tr_name = ''search_reddit'', tr_capability = Some search,
        tr_schema = schemas ''search_reddit'', tr_handler = handlers ''search_reddit'',
        tr_postValidate = None, tr_transformResponse = None\<rparr>),
      (''get_reddit_post'',
       \<lparr>tr_name = ''get_reddit_post'', tr_capability = Some reddit,
        tr_schema = schemas ''get_reddit_post'', tr_handler = handlers ''get_reddit_post'',
        tr_postValidate = None, tr_transformResponse = None\<rparr>),
      (''deep_research'',
       \<lparr>tr_name = ''deep_research'', tr_capability = Some deepResearch,
        tr_schema = schemas ''deep_research'', tr_handler = handlers ''deep_research'',
        tr_postValidate = None,
        tr_transformResponse =
          Some (\<lambda>result. (result, Some (str_includes result (''# '' @ cross_mark @ '' Error''))))\<rparr>),
      (''scrape_links'',
       \<lparr>tr_name = ''scrape_links'', tr_capability = Some scraping,
        tr_schema = schemas ''scrape_links'', tr_handler = handlers ''scrape_links'',
        tr_postValidate = None,
        tr_transformResponse =
          Some (\<lambda>result.
                  (result, Some (str_includes result (''# '' @ cross_mark @ '' Scraping Failed''))))\<rparr>),
      (''web_search'',
       \<lparr>tr_name = ''web_search'', tr_capability = Some search,
        tr_schema = schemas ''web_search'', tr_handler = handlers ''web_search'',
        tr_postValidate = None,
        tr_transformResponse =
          Some (\<lambda>result.
                  (result, Some (str_includes result (''# '' @ cross_mark @ '' web_search''))))\<rparr>)]"

text \<open>
  \<open>toolRegistry[name]\<close> on a plain object: an own property, a property inherited from
  \<open>Object.prototype\<close> (a function or object, hence truthy, with no \<open>capability\<close> and
  no \<open>schema\<close>), or \<open>undefined\<close>.
\<close>

definition Object_prototype_keys :: "string list" where
  "Object_prototype_keys =
     [''constructor'', ''__proto__'', ''hasOwnProperty'', ''isPrototypeOf'',
      ''propertyIsEnumerable'', ''toLocaleString'', ''toString'', ''valueOf'',
      ''__defineGetter__'', ''__defineSetter__'', ''__lookupGetter__'', ''__lookupSetter__'']"

datatype ('a, 'p, 'w) lookup_result =
  Registered "('a, 'p, 'w) ToolRegistration" | Inherited | Missing

definition lookup_tool :: "('a, 'p, 'w) ToolRegistry \<Rightarrow> string \<Rightarrow> ('a, 'p, 'w) lookup_result" where
  "lookup_tool registry name =
     (case map_of registry name of
        Some tool \<Rightarrow> Registered tool
      | None \<Rightarrow> if name \<in> set Object_prototype_keys then Inherited else Missing)"

text \<open>
  The \<open>TypeError\<close> raised by \<open>tool.schema.parse(args)\<close> when \<open>tool.schema\<close> is
  \<open>undefined\<close> (V8's wording).
\<close>

definition schema_TypeError :: js_error where
  "schema_TypeError =
     Thrown \<lparr>is_DOMException = False,
             err_message = Some ''Cannot read properties of undefined (reading 'parse')'',
             err_string = ''TypeError: Cannot read properties of undefined (reading 'parse')'',
             response_status = None, err_status = None, err_code = None,
             err_name = Some ''TypeError'', err_cause = None\<rparr>"

text \<open>What can be thrown out of the dispatcher.\<close>

datatype thrown = McpError_MethodNotFound string | OtherException js_error

text \<open>
  The two helpers imported from modules that are not among the sources.
  \<open>getMissingEnvMessage\<close> (config module) is a parameter.
\<close>

record helpers =
  getMissingEnvMessage :: "capability \<Rightarrow> string"
  formatStructuredError :: "StructuredError \<Rightarrow> string"

text \<open>
  Modelled from the spec: \<open>createToolErrorFromStructured\<close> (utils/errors.ts) is not among
  the sources. The specification says that a classified error is formatted as an
  \<open>is_error\<close> result; the wording of the body is the parameter \<open>formatStructuredError\<close>.
\<close>

definition createToolErrorFromStructured :: "helpers \<Rightarrow> StructuredError \<Rightarrow> CallToolResult" where
  "createToolErrorFromStructured h structured =
     \<lparr>ctr_content = [TextContent (formatStructuredError h structured)], isError = Some True\<rparr>"

text \<open>
  \<open>const structured = classifyError(error); return createToolErrorFromStructured(structured)\<close>,
  as the two \<open>catch\<close> blocks of \<open>executeTool\<close> and the one of the request handler have
  it: the result returned, or the exception the classifier throws, which nothing in the
  block catches.
\<close>

definition classified_result :: "helpers \<Rightarrow> js_error \<Rightarrow> thrown + CallToolResult" where
  "classified_result h error =
     (case classifyError error of
        Inr structured \<Rightarrow> Inr (createToolErrorFromStructured h structured)
      | Inl exn \<Rightarrow> Inl (OtherException exn))"

definition render_issue :: "zod_issue \<Rightarrow> string" where
  "render_issue i =
     ''- **'' @ (if join ''.'' (zi_path i) = [] then ''root'' else join ''.'' (zi_path i)) @
     ''**: '' @ zi_message i"

definition validation_error :: "string \<Rightarrow> CallToolResult" where
  "validation_error details =
     \<lparr>ctr_content =
        [TextContent (''# '' @ cross_mark @ '' Validation Error'' @ newline @ newline @ details)],
      isError = Some True\<rparr>"

text \<open>
  Step 3.5: the optional \<open>postValidate\<close> hook; a missing hook, \<open>undefined\<close> and the
  empty string are all falsy.
\<close>

definition postValidate_error :: "('a, 'p, 'w) ToolRegistration \<Rightarrow> 'p \<Rightarrow> string option" where
  "postValidate_error tool validatedParams =
     (case tr_postValidate tool of
        None \<Rightarrow> None
      | Some pv \<Rightarrow>
          (case pv validatedParams of
             None \<Rightarrow> None
           | Some postError \<Rightarrow> if postError = [] then None else Some postError))"

definition capability_disabled :: "('a, 'p, 'w) ToolRegistration \<Rightarrow> Capabilities \<Rightarrow> bool" where
  "capability_disabled tool capabilities =
     (case tr_capability tool of Some c \<Rightarrow> \<not> capabilities c | None \<Rightarrow> False)"

definition executeTool ::
  "helpers \<Rightarrow> ('a, 'p, 'w) ToolRegistry \<Rightarrow> string \<Rightarrow> 'a \<Rightarrow> Capabilities \<Rightarrow> 'w
     \<Rightarrow> (thrown + CallToolResult) \<times> 'w" where
  "executeTool h registry name args capabilities w =
     (case lookup_tool registry name of
        Missing \<Rightarrow>
          (Inl (McpError_MethodNotFound
                  (''Method not found: '' @ name @ ''. Available tools: '' @
                   join '', '' (map fst registry))), w)
      | Inherited \<Rightarrow> (classified_result h schema_TypeError, w)
      | Registered tool \<Rightarrow>
          if capability_disabled tool capabilities then
            (Inr \<lparr>ctr_content = [TextContent (getMissingEnvMessage h (the (tr_capability tool)))],
                  isError = Some True\<rparr>, w)
          else
            (case tr_schema tool args of
               Inl (ZodError issues) \<Rightarrow>
                 (Inr (validation_error (join newline (map render_issue issues))), w)
             | Inl (OtherParseError error) \<Rightarrow> (classified_result h error, w)
             | Inr validatedParams \<Rightarrow>
                 (case postValidate_error tool validatedParams of
                    Some postError \<Rightarrow> (Inr (validation_error postError), w)
                  | None \<Rightarrow>
                      (case tr_handler tool validatedParams w of
                         (Inl error, w1) \<Rightarrow> (classified_result h error, w1)
                       | (Inr result, w1) \<Rightarrow>
                           (case tr_transformResponse tool of
                              Some transform \<Rightarrow>
                                (Inr \<lparr>ctr_content = [TextContent (fst (transform result))],
                                      isError = snd (transform result)\<rparr>, w1)
                            | None \<Rightarrow>
                                (Inr \<lparr>ctr_content = [TextContent result], isError = None\<rparr>,
                                 w1))))))"

text \<open>
  The \<open>CallToolRequestSchema\<close> handler of index.ts: an \<open>McpError\<close> is thrown on to the
  protocol layer, any other exception is classified and formatted (the \<open>console.error\<close>
  in between writes a log line).
\<close>

definition callToolRequest ::
  "helpers \<Rightarrow> ('a, 'p, 'w) ToolRegistry \<Rightarrow> string \<Rightarrow> 'a \<Rightarrow> Capabilities \<Rightarrow> 'w
     \<Rightarrow> (thrown + CallToolResult) \<times> 'w" where
  "callToolRequest h registry name args capabilities w =
     (case executeTool h registry name args capabilities w of
        (Inr result, w1) \<Rightarrow> (Inr result, w1)
      | (Inl (McpError_MethodNotFound m), w1) \<Rightarrow> (Inl (McpError_MethodNotFound m), w1)
      | (Inl (OtherException error), w1) \<Rightarrow> (classified_result h error, w1))"















text \<open>
  C9. For every registered tool whose required capability is disabled and every args
  value, \<open>executeTool\<close> (and the request handler) returns the result whose text is the
  missing-environment-variable message for that capability, with \<open>isError\<close> true, and the
  state of the world is unchanged: the handler, the only part that reaches a provider, was
  not run, whatever it is.
\<close>

theorem executeTool_capability_gate:
  assumes "lookup_tool registry name = Registered tool"
    and "tr_capability tool = Some c"
    and "\<not> capabilities c"
  shows "executeTool h registry name args capabilities w =
           (Inr \<lparr>ctr_content = [TextContent (getMissingEnvMessage h c)], isError = Some True\<rparr>, w) \<and>
         callToolRequest h registry name args capabilities w =
           (Inr \<lparr>ctr_content = [TextContent (getMissingEnvMessage h c)], isError = Some True\<rparr>, w)"
  using assms by (simp add: executeTool_def callToolRequest_def capability_disabled_def)

text \<open>
  An example deployment: the state of the world counts the handler invocations; the
  schema rejects empty arguments; the handler rejects with
  \<open>{ status: 500, message: 'exploded' }\<close> on the argument \<open>boom\<close> and with
  \<open>{ status: 500, message: 42 }\<close> on the argument \<open>odd\<close>.
\<close>

definition demo_helpers :: helpers where
  "demo_helpers =
     \<lparr>getMissingEnvMessage = (\<lambda>c. ''missing environment variable''),
      formatStructuredError = message\<rparr>"

definition demo_schemas :: "string \<Rightarrow> string \<Rightarrow> parse_failure + string" where
  "demo_schemas name args =
     (if args = [] then Inl (ZodError [\<lparr>zi_path = [''queries''], zi_message = ''Required''\<rparr>])
      else Inr args)"

definition demo_handlers :: "string \<Rightarrow> string \<Rightarrow> nat \<Rightarrow> (js_error + string) \<times> nat" where
  "demo_handlers name params w =
     (if params = ''boom'' then Inl (status_object 500 ''exploded'')
      else if params = ''odd'' then Inl (nonstring_status_object 500 ''42'')
      else Inr (''ok: '' @ params),
      Suc w)"

definition demo_registry :: "(string, string, nat) ToolRegistry" where
  "demo_registry = toolRegistry demo_schemas demo_handlers"

definition all_enabled :: Capabilities where
  "all_enabled c = True"

definition no_scraping :: Capabilities where
  "no_scraping c = (c \<noteq> scraping)"

lemma demo_lookup_scrape:
  "lookup_tool demo_registry ''scrape_links'' =
     Registered
       \<lparr>tr_name = ''scrape_links'', tr_capability = Some scraping,
        tr_schema = demo_schemas ''scrape_links'', tr_handler = demo_handlers ''scrape_links'',
        tr_postValidate = None,
        tr_transformResponse =
          Some (\<lambda>result.
                  (result, Some (str_includes result (''# '' @ cross_mark @ '' Scraping Failed''))))\<rparr>"
  by (simp add: lookup_tool_def demo_registry_def toolRegistry_def)





theorem executeTool_capability_gate_witness:
  "\<not> no_scraping scraping \<and>
   executeTool demo_helpers demo_registry ''scrape_links'' ''url'' no_scraping 0 =
     (Inr \<lparr>ctr_content = [TextContent ''missing environment variable''], isError = Some True\<rparr>, 0) \<and>
   snd (executeTool demo_helpers demo_registry ''scrape_links'' ''url'' all_enabled 0) = 1"
proof -
  have h3: "\<not> no_scraping scraping" by (simp add: no_scraping_def)
  have ran: "snd (executeTool demo_helpers demo_registry ''scrape_links'' ''url'' all_enabled 0) = 1"
    by (simp add: executeTool_def demo_lookup_scrape capability_disabled_def all_enabled_def
        demo_schemas_def postValidate_error_def demo_handlers_def)
  have h2: "tr_capability
              \<lparr>tr_name = ''scrape_links'', tr_capability = Some scraping,
               tr_schema = demo_schemas ''scrape_links'',
               tr_handler = demo_handlers ''scrape_links'', tr_postValidate = None,
               tr_transformResponse =
                 Some (\<lambda>result.
                         (result,
                          Some (str_includes result (''# '' @ cross_mark @ '' Scraping Failed''))))\<rparr>
            = Some scraping"
    by simp
  from executeTool_capability_gate
         [where capabilities = no_scraping and c = scraping, OF demo_lookup_scrape h2 h3,
          of demo_helpers "''url''" 0] h3 ran
  show ?thesis by (simp add: demo_helpers_def)
qed

section \<open>Reddit comment extraction (lib/reddit.ts, \<open>getPost\<close>)\<close>

text \<open>
  A child of a comment listing as \<open>extract\<close> reads it: \<open>c.kind\<close>, and from \<open>c.data\<close> the
  author, body, score and \<open>replies.data.children\<close>. A child without \<open>data\<close> is one whose
  author and score are absent; absent replies are the empty list (on which \<open>extract\<close>
  does nothing). Scores are Reddit's vote counts, integers. \<open>maxComments\<close> is a
  JavaScript number that nothing makes an integer (the tool schema is \<open>z.number()\<close>),
  modelled as a real: a finite number.
\<close>

datatype thing =
  Thing (t_kind: string) (t_author: "string option") (t_body: "string option")
        (t_score: "int option") (t_replies: "thing list")

record Comment =
  c_author :: string
  c_body :: string
  c_score :: "int option"
  c_depth :: nat
  isOP :: bool

text \<open>\<open>c.data?.score || 0\<close>, the sort key.\<close>

definition score_key :: "thing \<Rightarrow> int" where
  "score_key c = (case t_score c of None \<Rightarrow> 0 | Some n \<Rightarrow> n)"

text \<open>
  \<open>[...children].sort((a, b) => key b - key a)\<close>: a stable sort by descending key.
\<close>

definition sort_by_score :: "thing list \<Rightarrow> thing list" where
  "sort_by_score children = sort_key (\<lambda>c. - score_key c) children"

text \<open>The test under which a child is skipped, negated.\<close>

definition kept :: "thing \<Rightarrow> bool" where
  "kept c =
     (\<not> (t_kind c \<noteq> ''t1'' \<or>
         (case t_author c of None \<Rightarrow> True | Some a \<Rightarrow> a = []) \<or>
         t_author c = Some ''[deleted]''))"

definition make_comment :: "string option \<Rightarrow> nat \<Rightarrow> thing \<Rightarrow> Comment" where
  "make_comment opAuthor depth c =
     \<lparr>c_author = the (t_author c),
      c_body = (case t_body c of None \<Rightarrow> [] | Some b \<Rightarrow> b),
      c_score = t_score c,
      c_depth = depth,
      isOP = (t_author c = opAuthor)\<rparr>"

lemma size_list_insort_key:
  "size_list g (insort_key f x xs) = size_list g (x # xs)"
  by (induction xs) auto

lemma size_list_sort_key: "size_list g (sort_key f xs) = size_list g xs"
  by (induction xs) (auto simp: sort_key_def size_list_insort_key)

lemma size_replies: "size_list size (t_replies c) < size c"
  by (cases c) simp

function extractComments :: "string option \<Rightarrow> real \<Rightarrow> thing list \<Rightarrow> nat \<Rightarrow> Comment list \<Rightarrow> Comment list"
  and extract_each :: "string option \<Rightarrow> real \<Rightarrow> thing list \<Rightarrow> nat \<Rightarrow> Comment list \<Rightarrow> Comment list"
  where
  "extractComments opAuthor maxComments children depth comments =
     extract_each opAuthor maxComments (sort_by_score children) depth comments"
| "extract_each opAuthor maxComments [] depth comments = comments"
| "extract_each opAuthor maxComments (c # cs) depth comments =
     (if real (length comments) \<ge> maxComments then comments
      else if \<not> kept c then extract_each opAuthor maxComments cs depth comments
      else
        extract_each opAuthor maxComments cs depth
          (if real (length (comments @ [make_comment opAuthor depth c])) < maxComments
           then extractComments opAuthor maxComments (t_replies c) (depth + 1)
                  (comments @ [make_comment opAuthor depth c])
           else comments @ [make_comment opAuthor depth c]))"
  by pat_completeness auto
termination
proof (relation "measure (\<lambda>x. case x of
            Inl (opAuthor, maxComments, children, depth, comments) \<Rightarrow>
              2 * size_list size children + 1
          | Inr (opAuthor, maxComments, cs, depth, comments) \<Rightarrow> 2 * size_list size cs)",
    goal_cases)
  case 1
  show ?case by simp
next
  case (2 opAuthor maxComments children depth comments)
  show ?case by (simp add: sort_by_score_def size_list_sort_key)
next
  case (3 opAuthor maxComments c cs depth comments)
  show ?case by simp
next
  case (4 opAuthor maxComments c cs depth comments)
  show ?case using size_replies [of c] by simp
next
  case (5 opAuthor maxComments c cs depth comments)
  show ?case by simp
qed

declare extractComments.simps [simp del]

text \<open>
  The flattening the specification describes: depth first, each comment before its
  replies, the siblings of each level in descending score order, deleted authors (and
  whatever hangs below them) left out.
\<close>

function flatten_thread :: "string option \<Rightarrow> nat \<Rightarrow> thing \<Rightarrow> Comment list" where
  "flatten_thread opAuthor depth c =
     make_comment opAuthor depth c #
     concat (map (flatten_thread opAuthor (depth + 1))
                 (filter kept (sort_by_score (t_replies c))))"
  by pat_completeness auto
termination
proof (relation "measure (\<lambda>(opAuthor, depth, c). size c)", goal_cases)
  case 1
  show ?case by simp
next
  case (2 opAuthor depth c x)
  then have "x \<in> set (t_replies c)" by (simp add: sort_by_score_def)
  then have "size x \<le> size_list size (t_replies c)" by (simp add: size_list_estimation')
  with size_replies [of c] show ?case by simp
qed

declare flatten_thread.simps [simp del]

definition flatten_forest :: "string option \<Rightarrow> nat \<Rightarrow> thing list \<Rightarrow> Comment list" where
  "flatten_forest opAuthor depth children =
     concat (map (flatten_thread opAuthor depth) (filter kept (sort_by_score children)))"

text \<open>
  The count at which \<open>comments.length >= maxComments\<close> first holds is \<open>\<lceil>maxComments\<rceil>\<close>
  (0 for a negative number).
\<close>

lemma reached_iff: "(m \<le> real n) = (nat \<lceil>m\<rceil> \<le> n)"
proof -
  have "(nat \<lceil>m\<rceil> \<le> n) = (\<lceil>m\<rceil> \<le> int n)" by (simp add: nat_le_iff)
  also have "\<dots> = (m \<le> of_int (int n))" by (rule ceiling_le_iff)
  finally show ?thesis by simp
qed

lemma extract_refines:
  "extractComments opAuthor m children depth acc =
     acc @ take (nat \<lceil>m\<rceil> - length acc) (flatten_forest opAuthor depth children)"
  "extract_each opAuthor m cs depth acc =
     acc @ take (nat \<lceil>m\<rceil> - length acc)
             (concat (map (flatten_thread opAuthor depth) (filter kept cs)))"
proof (induction opAuthor m children depth acc and opAuthor m cs depth acc
    rule: extractComments_extract_each.induct)
  case (1 opAuthor maxComments children depth comments)
  then show ?case by (simp add: extractComments.simps flatten_forest_def)
next
  case (2 opAuthor maxComments depth comments)
  then show ?case by simp
next
  case (3 opAuthor maxComments c cs depth comments)
  let ?mk = "make_comment opAuthor depth c"
  let ?F = "flatten_forest opAuthor (depth + 1) (t_replies c)"
  let ?R = "concat (map (flatten_thread opAuthor depth) (filter kept cs))"
  let ?N = "nat \<lceil>maxComments\<rceil>"
  let ?n = "?N - length comments"
  show ?case
  proof (cases "maxComments \<le> real (length comments)")
    case True
    then have "?N \<le> length comments" by (simp only: reached_iff)
    then have "?n = 0" by simp
    with True show ?thesis by simp
  next
    case False
    then have "\<not> ?N \<le> length comments" unfolding reached_iff .
    then have n: "0 < ?n" by (simp only: not_le zero_less_diff)
    show ?thesis
    proof (cases "kept c")
      case nk: False
      with False 3(1) show ?thesis by simp
    next
      case k: True
      let ?acc1 = "comments @ [?mk]"
      let ?acc2 = "if real (length ?acc1) < maxComments
                   then extractComments opAuthor maxComments (t_replies c) (depth + 1) ?acc1
                   else ?acc1"
      have n1: "?N - length ?acc1 = ?n - 1" by simp
      have acc2: "?acc2 = ?acc1 @ take (?n - 1) ?F"
      proof (cases "real (length ?acc1) < maxComments")
        case True
        from 3(2) [OF False _ True] k True show ?thesis by (simp only: n1 if_True) simp
      next
        case f: False
        then have "maxComments \<le> real (length ?acc1)" by simp
        then have "?N \<le> length ?acc1" by (simp only: reached_iff)
        then have "?n - 1 = 0" by simp
        with f show ?thesis by simp
      qed
      have len: "?N - length ?acc2 = ?n - 1 - length ?F"
        unfolding acc2 by simp
      have thread: "flatten_thread opAuthor depth c = ?mk # ?F"
        by (simp add: flatten_thread.simps flatten_forest_def)
      have lhs: "extract_each opAuthor maxComments (c # cs) depth comments =
                   ?acc2 @ take (?N - length ?acc2) ?R"
        using 3(3) False k by simp
      have "take ?n (concat (map (flatten_thread opAuthor depth) (filter kept (c # cs)))) =
              ?mk # take (?n - 1) ?F @ take (?n - 1 - length ?F) ?R"
        using n k False by (simp add: thread take_Cons')
      then show ?thesis
        unfolding lhs len unfolding acc2 by simp
    qed
  qed
qed


text \<open>
  The comment list of \<open>getPost\<close>: \<open>extract\<close> runs on the children of the comment
  listing when there are any, from depth 0 and the empty list.
\<close>

definition getPost_comments :: "string option \<Rightarrow> real \<Rightarrow> thing list option \<Rightarrow> Comment list" where
  "getPost_comments opAuthor maxComments listing =
     (case listing of
        None \<Rightarrow> []
      | Some children \<Rightarrow> extractComments opAuthor maxComments children 0 [])"

lemma flatten_thread_author:
  "kept c \<Longrightarrow> x \<in> set (flatten_thread opAuthor depth c) \<Longrightarrow>
   c_author x \<noteq> ''[deleted]'' \<and> c_author x \<noteq> []"
proof (induction opAuthor depth c arbitrary: x rule: flatten_thread.induct)
  case (1 opAuthor depth c)
  from 1(3) consider "x = make_comment opAuthor depth c"
    | y where "y \<in> set (filter kept (sort_by_score (t_replies c)))"
        "x \<in> set (flatten_thread opAuthor (depth + 1) y)"
    by (subst (asm) flatten_thread.simps) auto
  then show ?case
  proof cases
    case 1
    with \<open>kept c\<close> show ?thesis
      by (auto simp: kept_def make_comment_def split: option.splits)
  next
    case 2
    from 1(1) [OF 2(1) _ 2(2)] 2(1) show ?thesis by simp
  qed
qed

lemma flatten_forest_author:
  "x \<in> set (flatten_forest opAuthor depth children) \<Longrightarrow>
   c_author x \<noteq> ''[deleted]'' \<and> c_author x \<noteq> []"
  by (auto simp: flatten_forest_def dest: flatten_thread_author)

lemma sort_by_score_descending:
  "sorted_wrt (\<lambda>a b. score_key b \<le> score_key a) (sort_by_score cs)"
proof -
  have "sorted (map (\<lambda>c. - score_key c) (sort_by_score cs))"
    by (simp add: sort_by_score_def)
  then show ?thesis by (simp add: sorted_map)
qed

text \<open>
  C8, as the code has it. For every comment tree and requested count \<open>m\<close> (any finite
  number),
  the comment list is the first \<open>\<lceil>m\<rceil>\<close> comments of the depth-first flattening in which
  each comment comes before its replies and the siblings of every level are in descending
  score order (a stable sort, a permutation of the siblings), with deleted-author comments
  left out. So its length never exceeds \<open>\<lceil>m\<rceil>\<close> (and is 0 for \<open>m \<le> 0\<close>), hence never
  exceeds \<open>m\<close> when \<open>m\<close> is an integer, and no comment in it has a deleted author.
\<close>

theorem extract_depth_first:
  "getPost_comments opAuthor m (Some children) =
     take (nat \<lceil>m\<rceil>) (flatten_forest opAuthor 0 children) \<and>
   int (length (getPost_comments opAuthor m (Some children))) \<le> max 0 \<lceil>m\<rceil> \<and>
   (m \<in> \<int> \<longrightarrow> real (length (getPost_comments opAuthor m (Some children))) \<le> max 0 m) \<and>
   (\<forall>x \<in> set (getPost_comments opAuthor m (Some children)). c_author x \<noteq> ''[deleted]'') \<and>
   flatten_forest opAuthor d cs =
     concat (map (flatten_thread opAuthor d) (filter kept (sort_by_score cs))) \<and>
   flatten_thread opAuthor d c =
     make_comment opAuthor d c # flatten_forest opAuthor (d + 1) (t_replies c) \<and>
   sorted_wrt (\<lambda>a b. score_key b \<le> score_key a) (sort_by_score cs) \<and>
   mset (sort_by_score cs) = mset cs"
proof -
  have eq: "getPost_comments opAuthor m (Some children) =
     take (nat \<lceil>m\<rceil>) (flatten_forest opAuthor 0 children)"
    by (simp add: getPost_comments_def extract_refines(1))
  have len: "int (length (getPost_comments opAuthor m (Some children))) \<le> max 0 \<lceil>m\<rceil>"
    unfolding eq by simp
  have ilen: "real (length (getPost_comments opAuthor m (Some children))) \<le> max 0 m"
    if "m \<in> \<int>"
  proof -
    from that obtain z where z: "m = of_int z" by (auto elim: Ints_cases)
    from len have "int (length (getPost_comments opAuthor m (Some children))) \<le> max 0 z"
      by (simp add: z)
    then have "real_of_int (int (length (getPost_comments opAuthor m (Some children)))) \<le>
                 real_of_int (max 0 z)"
      by (simp only: of_int_le_iff)
    then show ?thesis by (simp add: z max_def split: if_splits)
  qed
  have del: "\<forall>x \<in> set (getPost_comments opAuthor m (Some children)). c_author x \<noteq> ''[deleted]''"
    unfolding eq using flatten_forest_author by (blast dest: in_set_takeD)
  have thread: "flatten_thread opAuthor d c =
     make_comment opAuthor d c # flatten_forest opAuthor (d + 1) (t_replies c)"
    by (simp add: flatten_thread.simps flatten_forest_def)
  have perm: "mset (sort_by_score cs) = mset cs" by (simp add: sort_by_score_def)
  from eq len ilen del thread perm sort_by_score_descending [of cs] show ?thesis
    by (simp add: flatten_forest_def)
qed

definition demo_listing :: "thing list" where
  "demo_listing =
     [Thing ''t1'' (Some ''alice'') (Some ''first'') (Some 5)
        [Thing ''t1'' (Some ''bob'') (Some ''reply'') (Some 1) []],
      Thing ''t1'' (Some ''carol'') (Some ''top'') (Some 10)
        [Thing ''t1'' (Some ''dave'') (Some ''low'') (Some 2) [],
         Thing ''t1'' (Some ''erin'') (Some ''high'') (Some 7) []],
      Thing ''t1'' (Some ''[deleted]'') None (Some 99)
        [Thing ''t1'' (Some ''frank'') (Some ''orphan'') (Some 50) []],
      Thing ''more'' None None None []]"

lemma demo_flattening:
  "flatten_forest (Some ''carol'') 0 demo_listing =
     [\<lparr>c_author = ''carol'', c_body = ''top'', c_score = Some 10, c_depth = 0, isOP = True\<rparr>,
      \<lparr>c_author = ''erin'', c_body = ''high'', c_score = Some 7, c_depth = 1, isOP = False\<rparr>,
      \<lparr>c_author = ''dave'', c_body = ''low'', c_score = Some 2, c_depth = 1, isOP = False\<rparr>,
      \<lparr>c_author = ''alice'', c_body = ''first'', c_score = Some 5, c_depth = 0, isOP = False\<rparr>,
      \<lparr>c_author = ''bob'', c_body = ''reply'', c_score = Some 1, c_depth = 1, isOP = False\<rparr>]"
  by code_simp

theorem extract_depth_first_witness:
  "(4::real) \<in> \<int> \<and>
   getPost_comments (Some ''carol'') 4 (Some demo_listing) =
     [\<lparr>c_author = ''carol'', c_body = ''top'', c_score = Some 10, c_depth = 0, isOP = True\<rparr>,
      \<lparr>c_author = ''erin'', c_body = ''high'', c_score = Some 7, c_depth = 1, isOP = False\<rparr>,
      \<lparr>c_author = ''dave'', c_body = ''low'', c_score = Some 2, c_depth = 1, isOP = False\<rparr>,
      \<lparr>c_author = ''alice'', c_body = ''first'', c_score = Some 5, c_depth = 0, isOP = False\<rparr>] \<and>
   real (length (getPost_comments (Some ''carol'') 4 (Some demo_listing))) \<le> 4"
proof -
  have i: "(4::real) \<in> \<int>" by simp
  from extract_depth_first [of "Some ''carol''" 4 demo_listing] i show ?thesis
    by (simp add: demo_flattening)
qed

text \<open>
  The claim as worded (for every requested count \<open>m\<close> the length never exceeds \<open>m\<close>)
  fails for a count that is not an integer: asked for at most 2.5 comments of the example
  listing, \<open>getPost\<close> returns three.
\<close>

theorem extract_depth_first_counterexample:
  "getPost_comments (Some ''carol'') (5/2) (Some demo_listing) =
     [\<lparr>c_author = ''carol'', c_body = ''top'', c_score = Some 10, c_depth = 0, isOP = True\<rparr>,
      \<lparr>c_author = ''erin'', c_body = ''high'', c_score = Some 7, c_depth = 1, isOP = False\<rparr>,
      \<lparr>c_author = ''dave'', c_body = ''low'', c_score = Some 2, c_depth = 1, isOP = False\<rparr>] \<and>
   \<not> real (length (getPost_comments (Some ''carol'') (5/2) (Some demo_listing))) \<le> 5/2"
proof -
  have c: "nat \<lceil>5/2::real\<rceil> = 3" by simp
  have "getPost_comments (Some ''carol'') (5/2) (Some demo_listing) =
          take 3 (flatten_forest (Some ''carol'') 0 demo_listing)"
    by (simp only: getPost_comments_def option.case extract_refines(1) c) simp
  then show ?thesis by (simp add: demo_flattening)
qed

section \<open>Fan-out scheduling (\<open>batchScrape\<close>, \<open>processMultipleWithLLM\<close>)\<close>

text \<open>
  The schedule of a fan-out as a sequence of events: task \<open>i\<close> (the task of input \<open>i\<close>)
  is started, task \<open>i\<close> has finished, the job sleeps. \<open>Promise.allSettled(batch.map(task))\<close>
  starts the tasks of the batch in order and resumes once all of them have finished; the
  order in which they finish is not determined by the program and is given by
  \<open>settle\<close>, which maps the indices of a batch to the order of their completion.
\<close>

datatype sched_event = Start nat | Finish nat | Pause nat

definition allSettled_events :: "(nat list \<Rightarrow> nat list) \<Rightarrow> nat list \<Rightarrow> sched_event list" where
  "allSettled_events settle idxs = map Start idxs @ map Finish (settle idxs)"

text \<open>
  The loop of \<open>batchScrape\<close> over \<open>n\<close> urls with \<open>SCRAPER.BATCH_SIZE = B\<close>, from batch
  \<open>batchNum\<close> on: the batch is \<open>urls.slice(startIdx, endIdx)\<close>, and a 500 ms sleep
  separates consecutive batches.
\<close>

function batchScrape_from ::
  "(nat list \<Rightarrow> nat list) \<Rightarrow> nat \<Rightarrow> nat \<Rightarrow> nat \<Rightarrow> nat \<Rightarrow> sched_event list" where
  "batchScrape_from settle B n totalBatches batchNum =
     (if batchNum < totalBatches then
        (let startIdx = batchNum * B;
             endIdx = min (startIdx + B) n
         in allSettled_events settle [startIdx..<endIdx] @
            (if batchNum < totalBatches - 1 then [Pause 500] else []) @
            batchScrape_from settle B n totalBatches (batchNum + 1))
      else [])"
  by pat_completeness auto
termination
  by (relation "measure (\<lambda>(settle, B, n, totalBatches, batchNum). totalBatches - batchNum)")
     auto

declare batchScrape_from.simps [simp del]

text \<open>
  \<open>totalBatches = Math.ceil(urls.length / BATCH_SIZE)\<close>. With a batch size of 0 this is
  \<open>NaN\<close> for no urls (the loop is skipped) and \<open>Infinity\<close> otherwise (the loop never
  ends): \<open>None\<close>.
\<close>

definition batchScrape_events :: "(nat list \<Rightarrow> nat list) \<Rightarrow> nat \<Rightarrow> nat \<Rightarrow> sched_event list option" where
  "batchScrape_events settle B n =
     (if B = 0 then (if n = 0 then Some [] else None)
      else Some (batchScrape_from settle B n ((n + B - 1) div B) 0))"

text \<open>
  \<open>scrapeMultiple\<close>: nothing for no urls, one \<open>Promise.allSettled\<close> over all urls
  (\<open>processBatch\<close>) when they fit one batch, \<open>batchScrape\<close> otherwise.
\<close>

definition scrapeMultiple_events :: "(nat list \<Rightarrow> nat list) \<Rightarrow> nat \<Rightarrow> nat \<Rightarrow> sched_event list option" where
  "scrapeMultiple_events settle B n =
     (if n = 0 then Some []
      else if n \<le> B then Some (allSettled_events settle [0..<n])
      else batchScrape_events settle B n)"

text \<open>
  The loop of \<open>processMultipleWithLLM\<close> over \<open>n\<close> contents, from index \<open>i\<close> on
  (\<open>for (i = 0; i < n; i += concurrency)\<close>). Its tasks never reject, so \<open>Promise.all\<close>
  resumes when all of them have finished. With \<open>concurrency = 0\<close> the loop never ends;
  that case is decided in \<open>processMultipleWithLLM_events\<close>.
\<close>

function processLLM_from ::
  "(nat list \<Rightarrow> nat list) \<Rightarrow> nat \<Rightarrow> nat \<Rightarrow> nat \<Rightarrow> sched_event list" where
  "processLLM_from settle concurrency n i =
     (if i < n \<and> 0 < concurrency then
        allSettled_events settle [i..<min (i + concurrency) n] @
        (if i + concurrency < n then [Pause 500] else []) @
        processLLM_from settle concurrency n (i + concurrency)
      else [])"
  by pat_completeness auto
termination
  by (relation "measure (\<lambda>(settle, concurrency, n, i). n - i)") auto

declare processLLM_from.simps [simp del]

definition processMultipleWithLLM_events ::
  "bool \<Rightarrow> (nat list \<Rightarrow> nat list) \<Rightarrow> nat \<Rightarrow> nat \<Rightarrow> sched_event list option" where
  "processMultipleWithLLM_events llm_enabled settle concurrency n =
     (if \<not> llm_enabled \<or> n = 0 then Some []
      else if concurrency = 0 then None
      else Some (processLLM_from settle concurrency n 0))"

text \<open>The number of started-but-not-finished tasks after a sequence of events.\<close>

fun delta :: "sched_event \<Rightarrow> int" where
  "delta (Start i) = 1"
| "delta (Finish i) = - 1"
| "delta (Pause d) = 0"

definition inflight :: "sched_event list \<Rightarrow> int" where
  "inflight es = sum_list (map delta es)"

fun is_Start :: "sched_event \<Rightarrow> bool" where
  "is_Start (Start i) = True"
| "is_Start e = False"

text \<open>
  The sliding-window discipline in the specification's words: whenever a task finishes
  while inputs remain unstarted, the next event is the start of a task.
\<close>

fun sliding_window :: "nat \<Rightarrow> nat \<Rightarrow> sched_event list \<Rightarrow> bool" where
  "sliding_window n started [] = True"
| "sliding_window n started (Start i # es) = sliding_window n (Suc started) es"
| "sliding_window n started (Pause d # es) = sliding_window n started es"
| "sliding_window n started (Finish i # es) =
     ((started < n \<longrightarrow> (case es of e # es' \<Rightarrow> is_Start e | [] \<Rightarrow> False)) \<and>
      sliding_window n started es)"

text \<open>
  The inputs whose tasks were started, and those whose tasks have finished, in the order
  of the events.
\<close>

fun started :: "sched_event list \<Rightarrow> nat list" where
  "started [] = []"
| "started (Start i # es) = i # started es"
| "started (e # es) = started es"

fun finished :: "sched_event list \<Rightarrow> nat list" where
  "finished [] = []"
| "finished (Finish i # es) = i # finished es"
| "finished (e # es) = finished es"

text \<open>
  The discipline the code follows, on the events as they happen: no in-flight count above
  the cap; a task starts either directly after the start of another task (of its batch)
  or when nothing is in flight; a task finishes only after it was started, each started
  task finishes once, and none is left in flight at the end.
\<close>

definition batch_discipline :: "nat \<Rightarrow> sched_event list \<Rightarrow> bool" where
  "batch_discipline K tr =
     ((\<forall>p. prefix p tr \<longrightarrow> 0 \<le> inflight p \<and> inflight p \<le> int K) \<and>
      (\<forall>p i. prefix (p @ [Start i]) tr \<and> (p = [] \<or> \<not> is_Start (last p)) \<longrightarrow> inflight p = 0) \<and>
      (\<forall>p. prefix p tr \<longrightarrow> mset (finished p) \<subseteq># mset (started p)) \<and>
      mset (finished tr) = mset (started tr) \<and>
      inflight tr = 0)"

text \<open>
  The schedule batch by batch, from input \<open>first\<close> on: while inputs remain, the next
  \<open>min K (n - first)\<close> inputs are started together, in input order; these tasks, each
  once and no other, finish in some order; a pause of 500 ms follows unless the inputs
  are exhausted; and the remaining inputs are scheduled in the same way.
\<close>

inductive batches :: "nat \<Rightarrow> nat \<Rightarrow> nat \<Rightarrow> sched_event list \<Rightarrow> bool" where
  batches_done: "n \<le> first \<Longrightarrow> batches K n first []"
| batches_batch:
    "first < n \<Longrightarrow> mset s = mset [first..<min (first + K) n] \<Longrightarrow>
     batches K n (first + K) rest \<Longrightarrow>
     batches K n first
       (map Start [first..<min (first + K) n] @ map Finish s @
        (if first + K < n then [Pause 500] else []) @ rest)"

lemma inflight_append [simp]: "inflight (xs @ ys) = inflight xs + inflight ys"
  by (simp add: inflight_def)

lemma inflight_Nil [simp]: "inflight [] = 0"
  by (simp add: inflight_def)

lemma inflight_Starts [simp]: "inflight (map Start xs) = int (length xs)"
  by (induction xs) (simp_all add: inflight_def)

lemma inflight_Finishes [simp]: "inflight (map Finish xs) = - int (length xs)"
  by (induction xs) (simp_all add: inflight_def)

lemma started_append [simp]: "started (xs @ ys) = started xs @ started ys"
  by (induction xs rule: started.induct) simp_all

lemma started_Starts [simp]: "started (map Start xs) = xs"
  by (induction xs) simp_all

lemma started_Finishes [simp]: "started (map Finish xs) = []"
  by (induction xs) simp_all

lemma finished_append [simp]: "finished (xs @ ys) = finished xs @ finished ys"
  by (induction xs rule: finished.induct) simp_all

lemma finished_Starts [simp]: "finished (map Start xs) = []"
  by (induction xs) simp_all

lemma finished_Finishes [simp]: "finished (map Finish xs) = xs"
  by (induction xs) simp_all

lemma prefix_mset_subset: "prefix xs ys \<Longrightarrow> mset xs \<subseteq># mset ys"
  by (auto simp: prefix_def)

text \<open>One batch, possibly followed by the pause.\<close>

definition batch_block :: "nat \<Rightarrow> sched_event list \<Rightarrow> bool" where
  "batch_block K A =
     (\<exists>idxs s ps. A = map Start idxs @ map Finish s @ ps \<and> mset s = mset idxs \<and>
                  idxs \<noteq> [] \<and> length idxs \<le> K \<and> (ps = [] \<or> ps = [Pause 500]))"

lemma inflight_Pause [simp]: "inflight [Pause d] = 0"
  by (simp add: inflight_def)

lemma batch_block_inflight: "batch_block K A \<Longrightarrow> inflight A = 0"
  by (auto simp: batch_block_def dest: mset_eq_length)

lemma batch_block_finished: "batch_block K A \<Longrightarrow> mset (finished A) = mset (started A)"
  by (auto simp: batch_block_def)

lemma batch_block_prefix:
  assumes "batch_block K A" and "prefix p A"
  shows "0 \<le> inflight p \<and> inflight p \<le> int K \<and> mset (finished p) \<subseteq># mset (started p)"
proof -
  from assms(1) obtain idxs s ps where A: "A = map Start idxs @ map Finish s @ ps"
    and ms: "mset s = mset idxs" and len: "length idxs \<le> K"
    and ps: "ps = [] \<or> ps = [Pause 500]"
    by (auto simp: batch_block_def)
  from ms have ls: "length s = length idxs" by (rule mset_eq_length)
  from assms(2) A consider
      (starts) "prefix p (map Start idxs)"
    | (rest) q where "p = map Start idxs @ q" "prefix q (map Finish s @ ps)"
    by (auto simp: prefix_append)
  then show ?thesis
  proof cases
    case starts
    then obtain xs where "prefix xs idxs" "p = map Start xs" by (auto dest: prefix_map_rightE)
    with len prefix_length_le [of xs idxs] show ?thesis by simp
  next
    case rest
    from rest(2) consider
        (fin) "prefix q (map Finish s)"
      | (pause) r where "q = map Finish s @ r" "prefix r ps"
      by (auto simp: prefix_append)
    then show ?thesis
    proof cases
      case fin
      then obtain xs where xs: "prefix xs s" "q = map Finish xs"
        by (auto dest: prefix_map_rightE)
      from xs(1) have "mset xs \<subseteq># mset idxs"
        using prefix_mset_subset [of xs s] ms by simp
      with xs ls len rest(1) prefix_length_le [of xs s] show ?thesis by simp
    next
      case pause
      with ps have r: "inflight r = 0" "finished r = []" "started r = []"
        by (auto simp: prefix_Cons inflight_def)
      with pause rest(1) ls len ms show ?thesis by simp
    qed
  qed
qed

lemma batch_block_start:
  assumes "batch_block K A" and "prefix (p @ [Start i]) A" and "p = [] \<or> \<not> is_Start (last p)"
  shows "p = []"
proof -
  from assms(1) obtain idxs s ps where A: "A = map Start idxs @ map Finish s @ ps"
    and ps: "ps = [] \<or> ps = [Pause 500]"
    by (auto simp: batch_block_def)
  from assms(2) A consider
      (starts) "prefix (p @ [Start i]) (map Start idxs)"
    | (rest) q where "p @ [Start i] = map Start idxs @ q" "prefix q (map Finish s @ ps)"
    by (auto simp: prefix_append)
  then show ?thesis
  proof cases
    case starts
    then obtain xs where "p @ [Start i] = map Start xs" by (auto dest: prefix_map_rightE)
    then have "p = map Start (butlast xs)"
      by (metis butlast_snoc map_butlast)
    with assms(3) show ?thesis by (cases "butlast xs" rule: rev_cases) auto
  next
    case rest
    have "Start i \<in> set (map Start idxs @ q)" using rest(1) by (metis in_set_conv_decomp)
    moreover have "Start i \<notin> set q"
      using set_mono_prefix [OF rest(2)] ps by auto
    ultimately have "q = [] \<or> last q \<noteq> Start i"
      by (metis last_in_set)
    moreover have "q \<noteq> [] \<Longrightarrow> last q = Start i"
      using rest(1) by (metis last_appendR last_snoc)
    ultimately have q: "q = []" by blast
    with rest(1) have "p @ [Start i] = map Start idxs" by simp
    then have "p = map Start (butlast idxs)" by (metis butlast_snoc map_butlast)
    with assms(3) show ?thesis by (cases "butlast idxs" rule: rev_cases) auto
  qed
qed

lemma batch_discipline_Nil: "batch_discipline K []"
  by (simp add: batch_discipline_def)

lemma batch_discipline_block:
  assumes A: "batch_block K A" and B: "batch_discipline K B"
  shows "batch_discipline K (A @ B)"
  unfolding batch_discipline_def
proof (intro conjI allI impI)
  fix p assume "prefix p (A @ B)"
  then consider "prefix p A" | q where "p = A @ q" "prefix q B"
    by (auto simp: prefix_append)
  then show "0 \<le> inflight p" "inflight p \<le> int K"
    using batch_block_prefix [OF A] batch_block_inflight [OF A] B
    by (cases; auto simp: batch_discipline_def)+
next
  fix p assume "prefix p (A @ B)"
  then consider (a) "prefix p A" | (b) q where "p = A @ q" "prefix q B"
    by (auto simp: prefix_append)
  then show "mset (finished p) \<subseteq># mset (started p)"
  proof cases
    case a
    with batch_block_prefix [OF A] show ?thesis by simp
  next
    case b
    from B b(2) have "mset (finished q) \<subseteq># mset (started q)"
      by (simp add: batch_discipline_def)
    with b(1) batch_block_finished [OF A] show ?thesis by simp
  qed
next
  fix p i assume h: "prefix (p @ [Start i]) (A @ B) \<and> (p = [] \<or> \<not> is_Start (last p))"
  then consider (a) "prefix (p @ [Start i]) A"
    | (b) q where "p @ [Start i] = A @ q" "prefix q B"
    by (auto simp: prefix_append)
  then show "inflight p = 0"
  proof cases
    case a
    with batch_block_start [OF A a] h show ?thesis by simp
  next
    case b
    show ?thesis
    proof (cases q rule: rev_cases)
      case Nil
      with b(1) have "prefix (p @ [Start i]) A" by simp
      with batch_block_start [OF A this] h show ?thesis by simp
    next
      case (snoc q' e)
      with b(1) have e: "e = Start i" and p: "p = A @ q'" by auto
      have "q' = [] \<or> \<not> is_Start (last q')"
      proof (cases "q' = []")
        case False
        with p have "last p = last q'" by simp
        with h p False show ?thesis by auto
      qed simp
      with B b(2) snoc e have "inflight q' = 0"
        by (auto simp: batch_discipline_def)
      with p batch_block_inflight [OF A] show ?thesis by simp
    qed
  qed
next
  show "mset (finished (A @ B)) = mset (started (A @ B))"
    using batch_block_finished [OF A] B by (simp add: batch_discipline_def)
next
  show "inflight (A @ B) = 0"
    using batch_block_inflight [OF A] B by (simp add: batch_discipline_def)
qed

lemma allSettled_block:
  assumes "\<forall>idxs. mset (settle idxs) = mset idxs" and "idxs \<noteq> []" and "length idxs \<le> K"
    and "ps = [] \<or> ps = [Pause 500]"
  shows "batch_block K (allSettled_events settle idxs @ ps)"
  using assms unfolding batch_block_def allSettled_events_def
  by (intro exI [of _ idxs] exI [of _ "settle idxs"] exI [of _ ps]) auto

lemma upt_split: "a \<le> b \<Longrightarrow> b \<le> c \<Longrightarrow> [a..<b] @ [b..<c] = [a..<c]"
  using upt_add_eq_append [of a b "c - b"] by simp

lemma started_allSettled [simp]: "started (allSettled_events settle idxs) = idxs"
  by (simp add: allSettled_events_def)

lemma batches_step:
  assumes "\<forall>idxs. mset (settle idxs) = mset idxs" and "first < n"
    and "batches K n (first + K) rest"
  shows "batches K n first
           ((allSettled_events settle [first..<min (first + K) n] @
             (if first + K < n then [Pause 500] else [])) @ rest)"
  using batches_batch [OF assms(2) _ assms(3), of "settle [first..<min (first + K) n]"] assms(1)
  by (simp add: allSettled_events_def)

lemma batchScrape_from_discipline:
  assumes "0 < B" and "\<forall>idxs. mset (settle idxs) = mset idxs"
    and "totalBatches * B < n + B" and "n \<le> totalBatches * B"
  shows "batch_discipline B (batchScrape_from settle B n totalBatches batchNum) \<and>
         (batchNum \<le> totalBatches \<longrightarrow>
            started (batchScrape_from settle B n totalBatches batchNum) = [batchNum * B..<n] \<and>
            batches B n (batchNum * B) (batchScrape_from settle B n totalBatches batchNum))"
  using assms
proof (induction settle B n totalBatches batchNum rule: batchScrape_from.induct)
  case (1 settle B n totalBatches batchNum)
  show ?case
  proof (cases "batchNum < totalBatches")
    case False
    with 1(5) have "batchNum \<le> totalBatches \<longrightarrow> n \<le> batchNum * B" by auto
    with False show ?thesis
      by (subst batchScrape_from.simps, subst batchScrape_from.simps,
          subst batchScrape_from.simps)
        (simp add: batch_discipline_Nil batches_done)
  next
    case True
    let ?s = "batchNum * B"
    let ?e = "min (?s + B) n"
    let ?ps = "if batchNum < totalBatches - 1 then [Pause 500] else []"
    let ?rest = "batchScrape_from settle B n totalBatches (batchNum + 1)"
    from True have "Suc batchNum \<le> totalBatches" by simp
    then have "Suc batchNum * B \<le> totalBatches * B" by (rule mult_le_mono1)
    with 1(4) have lt: "?s < n" by simp
    then have ne: "[?s..<?e] \<noteq> []" using 1(2) by simp
    have le: "length [?s..<?e] \<le> B" by simp
    have blk: "batch_block B (allSettled_events settle [?s..<?e] @ ?ps)"
      by (rule allSettled_block [OF 1(3) ne le]) simp
    from 1(1) [OF True refl refl 1(2) 1(3) 1(4) 1(5)] True
    have ih: "batch_discipline B ?rest"
      and st: "started ?rest = [(batchNum + 1) * B..<n]"
      and bs: "batches B n ((batchNum + 1) * B) ?rest"
      by simp_all
    have pause: "(batchNum < totalBatches - 1) = (?s + B < n)"
    proof
      assume "batchNum < totalBatches - 1"
      then have "batchNum + 2 \<le> totalBatches" by simp
      then have "(batchNum + 2) * B \<le> totalBatches * B" by (rule mult_le_mono1)
      with 1(4) show "?s + B < n" by simp
    next
      assume "?s + B < n"
      with 1(5) have "(batchNum + 1) * B < totalBatches * B" by simp
      then have "batchNum + 1 < totalBatches" by (simp only: mult_less_cancel2)
      then show "batchNum < totalBatches - 1" by simp
    qed
    have unf: "batchScrape_from settle B n totalBatches batchNum =
            (allSettled_events settle [?s..<?e] @ ?ps) @ ?rest"
      using True by (subst batchScrape_from.simps) (simp add: Let_def)
    have "batches B n ?s
            ((allSettled_events settle [?s..<?e] @ (if ?s + B < n then [Pause 500] else [])) @
             ?rest)"
      by (rule batches_step [OF 1(3) lt]) (use bs in \<open>simp add: add.commute\<close>)
    then have bt: "batches B n ?s (batchScrape_from settle B n totalBatches batchNum)"
      unfolding unf pause .
    have "started (batchScrape_from settle B n totalBatches batchNum) =
            [?s..<?e] @ [(batchNum + 1) * B..<n]"
      unfolding unf using st by simp
    also have "\<dots> = [?s..<n]"
    proof (cases "?s + B \<le> n")
      case True
      then show ?thesis
        using upt_split [of ?s "?s + B" n] by (simp add: min_absorb1 add.commute)
    next
      case False
      then show ?thesis by (simp add: min_absorb2)
    qed
    finally have "started (batchScrape_from settle B n totalBatches batchNum) = [?s..<n]" .
    moreover have "batch_discipline B (batchScrape_from settle B n totalBatches batchNum)"
      unfolding unf using batch_discipline_block [OF blk ih] by simp
    ultimately show ?thesis using bt by simp
  qed
qed

lemma processLLM_from_discipline:
  assumes "0 < c" and "\<forall>idxs. mset (settle idxs) = mset idxs"
  shows "batch_discipline c (processLLM_from settle c n i) \<and>
         started (processLLM_from settle c n i) = [i..<n] \<and>
         batches c n i (processLLM_from settle c n i)"
  using assms
proof (induction settle c n i rule: processLLM_from.induct)
  case (1 settle c n i)
  show ?case
  proof (cases "i < n")
    case False
    then show ?thesis
      by (subst processLLM_from.simps, subst processLLM_from.simps,
          subst processLLM_from.simps)
        (simp add: batch_discipline_Nil batches_done)
  next
    case True
    let ?e = "min (i + c) n"
    let ?ps = "if i + c < n then [Pause 500] else []"
    let ?rest = "processLLM_from settle c n (i + c)"
    have ne: "[i..<?e] \<noteq> []" using True 1(2) by simp
    have le: "length [i..<?e] \<le> c" by simp
    have blk: "batch_block c (allSettled_events settle [i..<?e] @ ?ps)"
      by (rule allSettled_block [OF 1(3) ne le]) simp
    from 1(1) [OF _ 1(2) 1(3)] True 1(2)
    have ih: "batch_discipline c ?rest"
      and st: "started ?rest = [i + c..<n]"
      and bs: "batches c n (i + c) ?rest"
      by simp_all
    have unf: "processLLM_from settle c n i =
            (allSettled_events settle [i..<?e] @ ?ps) @ ?rest"
      using True 1(2) by (subst processLLM_from.simps) simp
    have bt: "batches c n i (processLLM_from settle c n i)"
      unfolding unf by (rule batches_step [OF 1(3) True bs])
    have "started (processLLM_from settle c n i) = [i..<?e] @ [i + c..<n]"
      unfolding unf using st by simp
    also have "\<dots> = [i..<n]"
    proof (cases "i + c \<le> n")
      case True
      then show ?thesis using upt_split [of i "i + c" n] by (simp add: min_absorb1)
    next
      case False
      then show ?thesis by (simp add: min_absorb2)
    qed
    finally have "started (processLLM_from settle c n i) = [i..<n]" .
    moreover have "batch_discipline c (processLLM_from settle c n i)"
      unfolding unf using batch_discipline_block [OF blk ih] by simp
    ultimately show ?thesis using bt by simp
  qed
qed

lemma ceil_div_bounds:
  assumes "0 < (B::nat)"
  shows "(n + B - 1) div B * B < n + B" and "n \<le> (n + B - 1) div B * B"
proof -
  define x where "x = (n + B - 1) div B * B"
  have le: "x \<le> n + B - 1" by (simp add: x_def)
  have "n + B - 1 < (n + B - 1) div B * B + B"
    using assms by (metis add.commute dividend_less_div_times mult.commute)
  then have gt: "n + B - 1 < x + B" by (simp add: x_def)
  from le assms show "(n + B - 1) div B * B < n + B" unfolding x_def [symmetric] by arith
  from gt assms show "n \<le> (n + B - 1) div B * B" unfolding x_def [symmetric] by arith
qed

text \<open>
  Schedules the discipline does not admit: one that runs the tasks one at a time although
  the cap is 2, one that leaves out the pause between two batches, and one in which a
  task finishes that was never started.
\<close>

lemma batches_not_sequential:
  "\<not> batches 2 3 0 [Start 0, Finish 0, Start 1, Finish 1, Start 2, Finish 2]"
proof
  assume "batches 2 3 0 [Start 0, Finish 0, Start 1, Finish 1, Start 2, Finish 2]"
  then show False by (cases rule: batches.cases) (auto simp: upt_rec)
qed

lemma batches_not_without_pause:
  "\<not> batches 2 3 0 [Start 0, Start 1, Finish 0, Finish 1, Start 2, Finish 2]"
proof
  assume "batches 2 3 0 [Start 0, Start 1, Finish 0, Finish 1, Start 2, Finish 2]"
  then show False
  proof (cases rule: batches.cases)
    case (batches_batch s rest)
    from batches_batch have "mset s = mset [0::nat, 1]" by (simp add: upt_rec)
    then have "length s = length [0::nat, 1]" by (rule mset_eq_length)
    then obtain a b where "s = [a, b]"
      by (cases s; cases "tl s"; auto)
    with batches_batch(1) show False by (simp add: upt_rec)
  qed
qed

lemma batch_discipline_not_foreign_finish: "\<not> batch_discipline 1 [Start 0, Finish 7]"
  by (simp add: batch_discipline_def)

text \<open>
  C2, as the code has it. For a fan-out over \<open>n\<close> inputs with cap \<open>K \<ge> 1\<close>, whatever
  the order in which the tasks of a batch finish: the job runs to its end; the inputs are
  started in input order, in consecutive batches of \<open>min K remaining\<close> tasks started
  together, until they are exhausted; the tasks of a batch, each once and no other,
  finish before anything else happens; a pause of 500 ms follows every batch but the
  last; at every instant the number of started-but-not-finished tasks is between 0 and
  \<open>K\<close>; and a task starts either directly after the start of another task of its batch
  or when no task is in flight, that is, the next batch starts only once the whole
  previous batch has finished.
\<close>

theorem fanout_batch_discipline:
  assumes "0 < K" and "\<forall>idxs. mset (settle idxs) = mset idxs"
  shows "(\<exists>tr. batchScrape_events settle K n = Some tr \<and> batches K n 0 tr \<and>
               batch_discipline K tr \<and> started tr = [0..<n]) \<and>
         (\<exists>tr. scrapeMultiple_events settle K n = Some tr \<and> batches K n 0 tr \<and>
               batch_discipline K tr \<and> started tr = [0..<n]) \<and>
         (\<exists>tr. processMultipleWithLLM_events True settle K n = Some tr \<and> batches K n 0 tr \<and>
               batch_discipline K tr \<and> started tr = [0..<n])"
proof -
  have a: "batch_discipline K (batchScrape_from settle K n ((n + K - 1) div K) 0) \<and>
           started (batchScrape_from settle K n ((n + K - 1) div K) 0) = [0..<n] \<and>
           batches K n 0 (batchScrape_from settle K n ((n + K - 1) div K) 0)"
    using batchScrape_from_discipline [OF assms ceil_div_bounds [OF assms(1)], of n 0] by simp
  have b: "batch_discipline K (processLLM_from settle K n 0) \<and>
           started (processLLM_from settle K n 0) = [0..<n] \<and>
           batches K n 0 (processLLM_from settle K n 0)"
    by (rule processLLM_from_discipline [OF assms])
  have c: "n = 0 \<Longrightarrow> batch_discipline K [] \<and> started [] = [0..<n] \<and> batches K n 0 []"
    by (simp add: batch_discipline_Nil batches_done)
  have d: "batch_discipline K (allSettled_events settle [0..<n]) \<and>
           started (allSettled_events settle [0..<n]) = [0..<n] \<and>
           batches K n 0 (allSettled_events settle [0..<n])" if "0 < n" "n \<le> K"
  proof -
    have "batch_block K (allSettled_events settle [0..<n] @ [])"
      by (rule allSettled_block [OF assms(2)]) (use that in simp_all)
    from batch_discipline_block [OF this batch_discipline_Nil]
    have d1: "batch_discipline K (allSettled_events settle [0..<n])" by simp
    have "batches K n (0 + K) []" using that by (simp add: batches_done)
    from batches_step [OF assms(2) that(1) this] that
    have "batches K n 0 (allSettled_events settle [0..<n])" by (simp add: min_absorb2)
    with d1 show ?thesis by simp
  qed
  from a b c d assms(1) show ?thesis
    by (auto simp: batchScrape_events_def processMultipleWithLLM_events_def
        scrapeMultiple_events_def)
qed

text \<open>
  The claim's sliding window fails: with cap 2 and 3 inputs, after the first task
  finishes the third input is still waiting and one slot is free, yet the next event is
  the finish of the other task of the batch; the third task starts only after both have
  finished (and the pause), whatever the order of completion.
\<close>

theorem fanout_sliding_window_counterexample:
  "batchScrape_events (\<lambda>idxs. idxs) 2 3 =
     Some [Start 0, Start 1, Finish 0, Finish 1, Pause 500, Start 2, Finish 2] \<and>
   \<not> sliding_window 3 0 [Start 0, Start 1, Finish 0, Finish 1, Pause 500, Start 2, Finish 2] \<and>
   batchScrape_events rev 2 3 =
     Some [Start 0, Start 1, Finish 1, Finish 0, Pause 500, Start 2, Finish 2] \<and>
   \<not> sliding_window 3 0 [Start 0, Start 1, Finish 1, Finish 0, Pause 500, Start 2, Finish 2] \<and>
   processMultipleWithLLM_events True (\<lambda>idxs. idxs) 2 3 =
     Some [Start 0, Start 1, Finish 0, Finish 1, Pause 500, Start 2, Finish 2]"
  by code_simp

theorem fanout_batch_discipline_witness:
  "(0::nat) < 2 \<and> mset (rev [0::nat, 1]) = mset [0, 1] \<and>
   batchScrape_events rev 2 3 =
     Some [Start 0, Start 1, Finish 1, Finish 0, Pause 500, Start 2, Finish 2] \<and>
   batches 2 3 0 [Start 0, Start 1, Finish 1, Finish 0, Pause 500, Start 2, Finish 2] \<and>
   batch_discipline 2 [Start 0, Start 1, Finish 1, Finish 0, Pause 500, Start 2, Finish 2] \<and>
   inflight [Start 0, Start 1] = 2 \<and> inflight [Start 0, Start 1, Finish 1, Finish 0, Pause 500] = 0"
proof -
  have h1: "(0::nat) < 2" by simp
  have h2: "\<forall>idxs::nat list. mset (rev idxs) = mset idxs" by simp
  have tr: "batchScrape_events rev 2 3 =
     Some [Start 0, Start 1, Finish 1, Finish 0, Pause 500, Start 2, Finish 2]"
    by code_simp
  from fanout_batch_discipline [OF h1 h2, of 3] tr
  have d: "batches 2 3 0 [Start 0, Start 1, Finish 1, Finish 0, Pause 500, Start 2, Finish 2] \<and>
           batch_discipline 2 [Start 0, Start 1, Finish 1, Finish 0, Pause 500, Start 2, Finish 2]"
    by auto
  from h1 tr d show ?thesis by (simp add: inflight_def)
qed

end
